theory Spec2Isabelle
  imports Main "HOL-Library.Word"
begin

section \<open>The node model of msbuild.go\<close>

text \<open>
  Go strings are byte sequences; a \<^typ>\<open>string\<close> is a list of 8-bit characters, so
  \<^term>\<open>length\<close> and indexing count bytes as Go's \<open>len\<close> and \<open>s[i]\<close> do.

  \<open>xml.Name\<close> and \<open>xml.Attr\<close> are the two plain structs of the xml package that the
  source reads and writes field by field.
\<close>

datatype xml_Name = xml_Name (Space: string) (Local: string)

datatype xml_Attr = xml_Attr (Name: xml_Name) (Value: string)

text \<open>
  \<open>type Element struct { name; attributes; children []interface{} }\<close>. The dynamic types
  the source ever stores in \<open>children\<close> are \<open>*Element\<close>, \<open>xml.CharData\<close> and
  \<open>xml.Comment\<close>. Every \<open>*Element\<close> is reachable from exactly one parent (the source
  never stores a pointer twice), so the pointer graph is a tree and a child pointer is
  modelled by the child itself.
\<close>

datatype Element = Element (name: xml_Name) (attributes: "xml_Attr list") (children: "Child list")
  and Child = ElementPtr Element | CharData string | Comment string

text \<open>The zero value \<open>&Element{}\<close>.\<close>

definition Element_zero :: Element where
  "Element_zero = Element (xml_Name [] []) [] []"

text \<open>\<open>attr.Name.Local = name; attr.Value = value; append\<close>.\<close>

definition AddAttribute :: "Element \<Rightarrow> string \<Rightarrow> string \<Rightarrow> Element" where
  "AddAttribute e nm v =
     Element (name e) (attributes e @ [xml_Attr (xml_Name [] nm) v]) (children e)"

text \<open>
  \<open>AddChild\<close> appends a fresh element and returns a pointer to it. The model returns the
  updated parent; the returned pointer designates its last child, and a mutation the
  caller makes through that pointer is \<open>via_child\<close> below.
\<close>

definition AddChild :: "Element \<Rightarrow> string \<Rightarrow> Element" where
  "AddChild e nm =
     Element (name e) (attributes e)
       (children e @ [ElementPtr (Element (xml_Name [] nm) [] [])])"

definition AddCharData :: "Element \<Rightarrow> string \<Rightarrow> Element" where
  "AddCharData e v = Element (name e) (attributes e) (children e @ [CharData v])"

text \<open>
  \<open>child := e.AddChild(..); child.M(..)\<close>: the method \<open>M\<close> runs on the element that the
  last entry of \<open>e.children\<close> points to.
\<close>

definition via_child :: "(Element \<Rightarrow> Element) \<Rightarrow> Element \<Rightarrow> Element" where
  "via_child f e =
     (case rev (children e) of
        ElementPtr c # front \<Rightarrow>
          Element (name e) (attributes e) (rev front @ [ElementPtr (f c)])
      | _ \<Rightarrow> e)"

section \<open>Errors and panics\<close>

text \<open>
  The \<open>error\<close> values that reach the source: \<open>io.EOF\<close>, which \<open>UnmarshalXML\<close> compares
  against, and one constructor for each library that can fail. A run-time panic of Go is a
  value of \<open>go_panic\<close>: a failed type assertion \<open>elm.(*Element)\<close> and an index out of
  range are the two that the source can reach.
\<close>

datatype error =
    io_EOF
  | xml_SyntaxError
  | xml_UnmarshalError
  | io_WriteError
  | os_PathError
  | filepath_RelError
  | uuid_ParseError

datatype go_panic = TypeAssertion_panic | IndexOutOfRange_panic

section \<open>The functions of path/filepath that the source calls\<close>

text \<open>
  The standard library is modelled as it behaves on the Unix-like targets of Go, where
  \<open>filepath.Separator\<close> is the slash, there are no volume names and the comparison of path
  elements is byte equality. The definitions follow the library's loops index by index.
\<close>

definition Separator :: char where
  "Separator = CHR ''/''"

definition IsPathSeparator :: "char \<Rightarrow> bool" where
  "IsPathSeparator c = (c = Separator)"

text \<open>\<open>FromSlash\<close> replaces each slash by the separator and \<open>ToSlash\<close> each separator by a
  slash; with the slash as separator both return their argument.\<close>

definition FromSlash :: "string \<Rightarrow> string" where
  "FromSlash path = map (\<lambda>c. if c = CHR ''/'' then Separator else c) path"


text \<open>
  \<open>for i := len(path)-1; i >= 0 && !IsPathSeparator(path[i]); i-- { if path[i] == '.'
  { return path[i:] } }; return ""\<close>. The counter of \<open>Ext_scan\<close> is \<open>i + 1\<close>.
\<close>

fun Ext_scan :: "string \<Rightarrow> nat \<Rightarrow> string" where
  "Ext_scan path 0 = []"
| "Ext_scan path (Suc i) =
     (if IsPathSeparator (path ! i) then []
      else if path ! i = CHR ''.'' then drop i path
      else Ext_scan path i)"

definition Ext :: "string \<Rightarrow> string" where
  "Ext path = Ext_scan path (length path)"

text \<open>
  \<open>Clean\<close>. \<open>Clean_loop rooted rest out dotdot\<close> is the state of the library's loop: \<open>rest\<close>
  is \<open>path[r:]\<close>, \<open>out\<close> the first \<open>w\<close> bytes of the output buffer. \<open>Clean_backtrack\<close> is
  the inner loop of the \<open>..\<close> case, which moves \<open>w\<close> back to the previous separator but not
  below \<open>dotdot\<close>.
\<close>

fun Clean_backtrack :: "string \<Rightarrow> nat \<Rightarrow> nat \<Rightarrow> nat" where
  "Clean_backtrack out dotdot 0 = 0"
| "Clean_backtrack out dotdot (Suc w) =
     (if Suc w > dotdot \<and> \<not> IsPathSeparator (out ! Suc w) then Clean_backtrack out dotdot w
      else Suc w)"

function Clean_loop :: "bool \<Rightarrow> string \<Rightarrow> string \<Rightarrow> nat \<Rightarrow> string" where
  "Clean_loop rooted [] out dotdot = out"
| "Clean_loop rooted (c # cs) out dotdot =
     (if IsPathSeparator c then Clean_loop rooted cs out dotdot
      else if c = CHR ''.'' \<and> (case cs of [] \<Rightarrow> True | d # _ \<Rightarrow> IsPathSeparator d)
      then Clean_loop rooted cs out dotdot
      else if c = CHR ''.'' \<and>
              (case cs of [] \<Rightarrow> False
               | d # ds \<Rightarrow> d = CHR ''.'' \<and> (case ds of [] \<Rightarrow> True | e # _ \<Rightarrow> IsPathSeparator e))
      then
        (if length out > dotdot
         then Clean_loop rooted (tl cs)
                (take (Clean_backtrack out dotdot (length out - 1)) out) dotdot
         else if \<not> rooted
         then
           let out = (if length out > 0 then out @ [Separator] else out) @ ''..''
           in Clean_loop rooted (tl cs) out (length out)
         else Clean_loop rooted (tl cs) out dotdot)
      else
        let out = (if rooted \<and> length out \<noteq> 1 \<or> \<not> rooted \<and> length out \<noteq> 0
                   then out @ [Separator] else out)
        in Clean_loop rooted (dropWhile (\<lambda>x. \<not> IsPathSeparator x) (c # cs))
             (out @ takeWhile (\<lambda>x. \<not> IsPathSeparator x) (c # cs)) dotdot)"
  by pat_completeness auto
termination
proof (relation "measure (\<lambda>(rooted, path, out, dotdot). length path)")
  show "wf (measure (\<lambda>(rooted, path, out, dotdot). length path))" by simp
next
  fix rooted :: bool and c cs and out :: string and dotdot :: nat and x :: string
  assume "\<not> IsPathSeparator c"
  then have "dropWhile (\<lambda>x. \<not> IsPathSeparator x) (c # cs) =
      dropWhile (\<lambda>x. \<not> IsPathSeparator x) cs"
    by simp
  moreover have "length (dropWhile (\<lambda>x. \<not> IsPathSeparator x) cs) \<le> length cs"
    by (rule length_dropWhile_le)
  ultimately show "((rooted, dropWhile (\<lambda>x. \<not> IsPathSeparator x) (c # cs),
           x @ takeWhile (\<lambda>x. \<not> IsPathSeparator x) (c # cs), dotdot),
          rooted, c # cs, out, dotdot) \<in> measure (\<lambda>(rooted, path, out, dotdot). length path)"
    by simp
qed (auto split: list.splits)

definition Clean :: "string \<Rightarrow> string" where
  "Clean path =
     (if path = [] then ''.''
      else
        let rooted = IsPathSeparator (hd path);
            out = (if rooted then Clean_loop rooted (tl path) [Separator] 1
                   else Clean_loop rooted path [] 0)
        in FromSlash (if length out = 0 then ''.'' else out))"

text \<open>\<open>strings.Join(elems, sep)\<close> and \<open>filepath.Join\<close>, which cleans the elements from the
  first non-empty one on, joined by the separator.\<close>

fun strings_Join :: "string list \<Rightarrow> string \<Rightarrow> string" where
  "strings_Join [] sep = []"
| "strings_Join [e] sep = e"
| "strings_Join (e # es) sep = e @ sep @ strings_Join es sep"

fun Join :: "string list \<Rightarrow> string" where
  "Join [] = []"
| "Join (e # elem) =
     (if e \<noteq> [] then Clean (strings_Join (e # elem) [Separator]) else Join elem)"

text \<open>
  \<open>Split\<close> and \<open>Dir\<close> search the last separator: \<open>i := len(path)-1; for i >= 0 &&
  !IsPathSeparator(path[i]) { i-- }\<close>. \<open>lastSeparator path (length path)\<close> is \<open>i + 1\<close>.
\<close>

fun lastSeparator :: "string \<Rightarrow> nat \<Rightarrow> nat" where
  "lastSeparator path 0 = 0"
| "lastSeparator path (Suc i) =
     (if IsPathSeparator (path ! i) then Suc i else lastSeparator path i)"

definition Split :: "string \<Rightarrow> string \<times> string" where
  "Split path = (let i = lastSeparator path (length path) in (take i path, drop i path))"

definition Dir :: "string \<Rightarrow> string" where
  "Dir path = Clean (take (lastSeparator path (length path)) path)"

definition IsAbs :: "string \<Rightarrow> bool" where
  "IsAbs path = (take 1 path = ''/'')"

text \<open>\<open>Abs\<close> asks the operating system for the working directory only when the path is
  not absolute; \<open>Getwd\<close> is the answer of \<open>os.Getwd\<close>.\<close>

definition Abs :: "error + string \<Rightarrow> string \<Rightarrow> error + string" where
  "Abs Getwd path =
     (if IsAbs path then Inr (Clean path)
      else case Getwd of Inl err \<Rightarrow> Inl err | Inr wd \<Rightarrow> Inr (Join [wd, path]))"

text \<open>
  \<open>Rel\<close>. \<open>elementEnd s i\<close> is the inner loop \<open>for i < len(s) && s[i] != Separator { i++ }\<close>
  and \<open>Rel_loop\<close> the loop that positions \<open>base[b0:bi]\<close> and \<open>targ[t0:ti]\<close> at the first
  differing elements.
\<close>

function elementEnd :: "string \<Rightarrow> nat \<Rightarrow> nat" where
  "elementEnd s i = (if i < length s \<and> s ! i \<noteq> Separator then elementEnd s (Suc i) else i)"
  by pat_completeness auto
termination
  by (relation "measure (\<lambda>(s, i). length s - i)") auto

declare elementEnd.simps [simp del]

lemma elementEnd_ge: "i \<le> elementEnd s i"
proof (induction s i rule: elementEnd.induct)
  case (1 s i)
  show ?case
  proof (cases "i < length s \<and> s ! i \<noteq> Separator")
    case True
    then have "Suc i \<le> elementEnd s (Suc i)" using 1 by simp
    moreover have "elementEnd s i = elementEnd s (Suc i)"
      using True by (subst elementEnd.simps) simp
    ultimately show ?thesis by simp
  next
    case False
    then have "elementEnd s i = i" by (subst elementEnd.simps) auto
    then show ?thesis by simp
  qed
qed

function Rel_loop ::
  "string \<Rightarrow> string \<Rightarrow> nat \<times> nat \<times> nat \<times> nat \<Rightarrow> nat \<times> nat \<times> nat \<times> nat" where
  "Rel_loop base targ (b0, bi, t0, ti) =
     (if bi < length base \<and> ti < length targ then
        let b0 = bi;
            bi = elementEnd base bi;
            t0 = ti;
            ti = elementEnd targ ti
        in if take (ti - t0) (drop t0 targ) \<noteq> take (bi - b0) (drop b0 base)
           then (b0, bi, t0, ti)
           else
             let bi = (if bi < length base then Suc bi else bi);
                 ti = (if ti < length targ then Suc ti else ti)
             in Rel_loop base targ (bi, bi, ti, ti)
      else (b0, bi, t0, ti))"
  by pat_completeness auto
termination
proof (relation "measure (\<lambda>(base, targ, b0, bi, t0, ti). length base - bi)", goal_cases)
  case 1
  show ?case by simp
next
  case (2 base targ b0 bi t0 ti x xa xb xc xd)
  then show ?case
    using elementEnd_ge[of bi base] by (auto split: if_splits)
qed

declare Rel_loop.simps [simp del]

definition Rel :: "string \<Rightarrow> string \<Rightarrow> error + string" where
  "Rel basepath targpath =
     (let base = Clean basepath;
          targ = Clean targpath
      in if targ = base then Inr ''.''
         else
           let base = (if base = ''.'' then [] else base);
               baseSlashed = (length base > 0 \<and> base ! 0 = Separator);
               targSlashed = (length targ > 0 \<and> targ ! 0 = Separator)
           in if baseSlashed \<noteq> targSlashed then Inl filepath_RelError
              else
                let bl = length base;
                    tl = length targ;
                    (b0, bi, t0, ti) = Rel_loop base targ (0, 0, 0, 0)
                in if take (bi - b0) (drop b0 base) = ''..'' then Inl filepath_RelError
                   else if b0 \<noteq> bl then
                     let seps = count_list (drop b0 base) Separator
                     in Inr (''..'' @ concat (replicate seps (Separator # ''..'')) @
                             (if t0 \<noteq> tl then Separator # drop t0 targ else []))
                   else Inr (drop t0 targ))"

section \<open>The functions of github.com/google/uuid that the source calls\<close>

unbundle bit_operations_syntax

text \<open>
  A \<open>uuid.UUID\<close> is an array of 16 bytes; a byte is an 8-bit word. \<open>[]byte(path)\<close> is
  \<open>bytes_of path\<close>.
\<close>

type_synonym byte = "8 word"

definition bytes_of :: "string \<Rightarrow> byte list" where
  "bytes_of s = map (\<lambda>c. of_nat (of_char c)) s"

text \<open>
  \<open>crypto/sha1\<close>: the message is padded with \<open>0x80\<close>, zero bytes and its length in bits as
  a 64-bit big-endian number to a multiple of 64 bytes; each block of sixteen big-endian
  32-bit words is extended to eighty words and run through the eighty rounds.
\<close>

definition be32 :: "byte list \<Rightarrow> 32 word" where
  "be32 bs = foldl (\<lambda>acc b. push_bit 8 acc OR ucast b) 0 bs"

definition word_bytes :: "32 word \<Rightarrow> byte list" where
  "word_bytes w = [ucast (drop_bit 24 w), ucast (drop_bit 16 w), ucast (drop_bit 8 w), ucast w]"

definition len_bytes :: "64 word \<Rightarrow> byte list" where
  "len_bytes n =
     [ucast (drop_bit 56 n), ucast (drop_bit 48 n), ucast (drop_bit 40 n), ucast (drop_bit 32 n),
      ucast (drop_bit 24 n), ucast (drop_bit 16 n), ucast (drop_bit 8 n), ucast n]"

definition sha1_pad :: "byte list \<Rightarrow> byte list" where
  "sha1_pad m =
     m @ [0x80] @ replicate ((119 - length m mod 64) mod 64) 0 @ len_bytes (push_bit 3 (of_nat (length m)))"

fun chunks :: "nat \<Rightarrow> nat \<Rightarrow> 'a list \<Rightarrow> 'a list list" where
  "chunks 0 k xs = []"
| "chunks (Suc n) k xs = take k xs # chunks n k (drop k xs)"

fun sha1_schedule :: "nat \<Rightarrow> 32 word list \<Rightarrow> 32 word list" where
  "sha1_schedule 0 w = w"
| "sha1_schedule (Suc n) w =
     (let i = length w
      in sha1_schedule n
           (w @ [word_rotl 1 (w ! (i - 3) XOR w ! (i - 8) XOR w ! (i - 14) XOR w ! (i - 16))]))"

definition sha1_f :: "nat \<Rightarrow> 32 word \<Rightarrow> 32 word \<Rightarrow> 32 word \<Rightarrow> 32 word" where
  "sha1_f i b c d =
     (if i < 20 then (b AND c) OR (NOT b AND d)
      else if i < 40 then b XOR c XOR d
      else if i < 60 then (b AND c) OR (b AND d) OR (c AND d)
      else b XOR c XOR d)"

definition sha1_k :: "nat \<Rightarrow> 32 word" where
  "sha1_k i =
     (if i < 20 then 0x5A827999 else if i < 40 then 0x6ED9EBA1
      else if i < 60 then 0x8F1BBCDC else 0xCA62C1D6)"

type_synonym sha1_state = "32 word \<times> 32 word \<times> 32 word \<times> 32 word \<times> 32 word"

fun sha1_rounds :: "nat \<Rightarrow> 32 word list \<Rightarrow> sha1_state \<Rightarrow> sha1_state" where
  "sha1_rounds i [] st = st"
| "sha1_rounds i (wi # ws) (a, b, c, d, e) =
     sha1_rounds (Suc i) ws
       (word_rotl 5 a + sha1_f i b c d + e + sha1_k i + wi, a, word_rotl 30 b, c, d)"

definition sha1_block :: "sha1_state \<Rightarrow> byte list \<Rightarrow> sha1_state" where
  "sha1_block h blk =
     (case (h, sha1_rounds 0 (sha1_schedule 64 (map be32 (chunks 16 4 blk))) h) of
        ((h0, h1, h2, h3, h4), (a, b, c, d, e)) \<Rightarrow> (h0 + a, h1 + b, h2 + c, h3 + d, h4 + e))"

definition sha1_Sum :: "byte list \<Rightarrow> byte list" where
  "sha1_Sum m =
     (let p = sha1_pad m
      in case foldl sha1_block (0x67452301, 0xEFCDAB89, 0x98BADCFE, 0x10325476, 0xC3D2E1F0)
                (chunks (length p div 64) 64 p) of
           (h0, h1, h2, h3, h4) \<Rightarrow>
             word_bytes h0 @ word_bytes h1 @ word_bytes h2 @ word_bytes h3 @ word_bytes h4)"

text \<open>
  \<open>NewSHA1(space, data) = NewHash(sha1.New(), space, data, 5)\<close>: the hash of the namespace
  bytes followed by the data, cut to 16 bytes, with the version in the high half of byte 6
  and the variant of RFC 4122 in the two high bits of byte 8.
\<close>

type_synonym UUID = "byte list"

definition NewHash :: "UUID \<Rightarrow> byte list \<Rightarrow> nat \<Rightarrow> UUID" where
  "NewHash space data version =
     (let s = sha1_Sum (space @ data);
          uuid = take 16 s;
          uuid = uuid[6 := (uuid ! 6 AND 0x0f) OR push_bit 4 (of_nat version AND 0xf)];
          uuid = uuid[8 := (uuid ! 8 AND 0x3f) OR 0x80]
      in uuid)"

definition NewSHA1 :: "UUID \<Rightarrow> byte list \<Rightarrow> UUID" where
  "NewSHA1 space data = NewHash space data 5"

text \<open>\<open>UUID.String\<close>: lower-case hexadecimal in the groups 8-4-4-4-12.\<close>

definition hextable :: string where
  "hextable = ''0123456789abcdef''"

definition hex_Encode :: "byte list \<Rightarrow> string" where
  "hex_Encode src = concat (map (\<lambda>v. [hextable ! unat (drop_bit 4 v), hextable ! unat (v AND 0x0f)]) src)"

definition UUID_String :: "UUID \<Rightarrow> string" where
  "UUID_String uuid =
     hex_Encode (take 4 uuid) @ ''-'' @ hex_Encode (take 2 (drop 4 uuid)) @ ''-'' @
     hex_Encode (take 2 (drop 6 uuid)) @ ''-'' @ hex_Encode (take 2 (drop 8 uuid)) @ ''-'' @
     hex_Encode (drop 10 uuid)"

text \<open>
  \<open>Parse\<close> accepts the 36-byte form, the same with the prefix \<open>urn:uuid:\<close> or in braces,
  and 32 hexadecimal digits. \<open>xtob\<close> converts two hexadecimal digits, \<open>xvalue\<close> is the
  table \<open>xvalues\<close> with 255 for a byte that is no digit.
\<close>

definition xvalue :: "char \<Rightarrow> byte" where
  "xvalue c =
     (let n = (of_char c :: nat)
      in if 48 \<le> n \<and> n \<le> 57 then of_nat (n - 48)
         else if 97 \<le> n \<and> n \<le> 102 then of_nat (n - 87)
         else if 65 \<le> n \<and> n \<le> 70 then of_nat (n - 55)
         else 255)"

definition xtob :: "char \<Rightarrow> char \<Rightarrow> byte \<times> bool" where
  "xtob x1 x2 =
     (let b1 = xvalue x1; b2 = xvalue x2
      in (push_bit 4 b1 OR b2, b1 \<noteq> 255 \<and> b2 \<noteq> 255))"

fun xtob_all :: "string \<Rightarrow> nat list \<Rightarrow> error + UUID" where
  "xtob_all s [] = Inr []"
| "xtob_all s (x # xs) =
     (case xtob (s ! x) (s ! Suc x) of
        (v, ok) \<Rightarrow>
          if \<not> ok then Inl uuid_ParseError
          else case xtob_all s xs of Inl err \<Rightarrow> Inl err | Inr vs \<Rightarrow> Inr (v # vs))"

definition EqualFold_urn :: "string \<Rightarrow> bool" where
  "EqualFold_urn p =
     (map (\<lambda>c. if 65 \<le> (of_char c :: nat) \<and> (of_char c :: nat) \<le> 90
                then char_of ((of_char c :: nat) + 32) else c) p = ''urn:uuid:'')"

definition Parse_hyphenated :: "string \<Rightarrow> error + UUID" where
  "Parse_hyphenated s =
     (if s ! 8 \<noteq> CHR ''-'' \<or> s ! 13 \<noteq> CHR ''-'' \<or> s ! 18 \<noteq> CHR ''-'' \<or> s ! 23 \<noteq> CHR ''-''
      then Inl uuid_ParseError
      else xtob_all s [0, 2, 4, 6, 9, 11, 14, 16, 19, 21, 24, 26, 28, 30, 32, 34])"

definition Parse :: "string \<Rightarrow> error + UUID" where
  "Parse s =
     (if length s = 36 then Parse_hyphenated s
      else if length s = 36 + 9 then
        (if \<not> EqualFold_urn (take 9 s) then Inl uuid_ParseError else Parse_hyphenated (drop 9 s))
      else if length s = 36 + 2 then Parse_hyphenated (drop 1 s)
      else if length s = 32 then xtob_all s (map (\<lambda>i. i * 2) [0..<16])
      else Inl uuid_ParseError)"

section \<open>The xml package: tokens, decoder and encoder\<close>

text \<open>
  Modelled from the spec: the token kinds of the repository's xml package, which is not
  among the sources. A document is read and written as a sequence of tokens: start tags
  with a name and attributes, end tags, text runs, comments, and the constructs (processing
  instructions, directives) that decoding drops.
\<close>

datatype Token =
    StartElement xml_Name "xml_Attr list"
  | EndElement xml_Name
  | CharDataTok string
  | CommentTok string
  | ProcInst string string
  | Directive string

text \<open>
  Modelled from the spec: the state of \<open>xml.Decoder\<close>, which is not among the sources. The
  decoder holds the tokens of the document that are still to be read and a stack with the
  names of the open elements; an element that is being unmarshalled has the mark \<open>stkEOF\<close>
  below its name, at which the decoder reports the end of input.
\<close>

datatype frame = stkStart xml_Name | stkEOF

record Decoder =
  input :: "Token list"
  stk :: "frame list"

text \<open>
  Modelled from the spec: \<open>Decoder.Token\<close>. At a mark it returns \<open>io.EOF\<close> and reads nothing
  (decoding a node concludes when its matching end tag has been reached). At the end of the
  document it returns \<open>io.EOF\<close> when no element is open, and a syntax error when one is
  (an unterminated element is a malformed document). An end tag must match the open
  element.
\<close>

definition Decoder_Token :: "Decoder \<Rightarrow> (error + Token) \<times> Decoder" where
  "Decoder_Token d =
     (case stk d of
        stkEOF # _ \<Rightarrow> (Inl io_EOF, d)
      | _ \<Rightarrow>
        (case input d of
           [] \<Rightarrow> (if stk d = [] then Inl io_EOF else Inl xml_SyntaxError, d)
         | t # rest \<Rightarrow>
           (case t of
              StartElement nm attrs \<Rightarrow> (Inr t, d\<lparr>input := rest, stk := stkStart nm # stk d\<rparr>)
            | EndElement nm \<Rightarrow>
                (case stk d of
                   stkStart nm' # s \<Rightarrow>
                     if nm' = nm then (Inr t, d\<lparr>input := rest, stk := s\<rparr>)
                     else (Inl xml_SyntaxError, d\<lparr>input := rest\<rparr>)
                 | _ \<Rightarrow> (Inl xml_SyntaxError, d\<lparr>input := rest\<rparr>))
            | _ \<Rightarrow> (Inr t, d\<lparr>input := rest\<rparr>))))"

text \<open>
  Modelled from the spec: the two steps of the decoder around a call of \<open>UnmarshalXML\<close>.
  \<open>pushEOF\<close> puts the mark below the start tag that was read last; \<open>popEOF\<close> removes the
  mark when it is on top and says whether it was.
\<close>

definition pushEOF :: "Decoder \<Rightarrow> Decoder" where
  "pushEOF d =
     (case stk d of stkStart nm # s \<Rightarrow> d\<lparr>stk := stkStart nm # stkEOF # s\<rparr> | _ \<Rightarrow> d)"

definition popEOF :: "Decoder \<Rightarrow> bool \<times> Decoder" where
  "popEOF d = (case stk d of stkEOF # s \<Rightarrow> (True, d\<lparr>stk := s\<rparr>) | _ \<Rightarrow> (False, d))"

text \<open>
  \<open>UnmarshalXML\<close> is the source's method: it takes the name of the start tag without its
  namespace and the attributes, then \<open>UnmarshalXML_loop\<close>, its \<open>for\<close> loop, reads tokens
  until the decoder reports an error; \<open>io.EOF\<close> ends the loop with no error. The receiver
  \<open>out\<close> is mutated in place, so the element built so far is part of the result also when
  an error is returned.

  Modelled from the spec: \<open>Decoder.DecodeElement\<close>, which the loop calls on a start tag
  with a nil \<open>*Element\<close>. It allocates the element, sets the mark, runs \<open>UnmarshalXML\<close> on
  it and removes the mark; an \<open>UnmarshalXML\<close> that returns before the end tag of its
  element is an error.

  The loop runs as long as the decoder returns tokens. The first argument bounds the
  number of tokens read on one path of calls; the result is \<open>None\<close> when it is used up.
\<close>

fun UnmarshalXML_loop ::
    "nat \<Rightarrow> Element \<Rightarrow> Decoder \<Rightarrow> (error option \<times> Element \<times> Decoder) option"
  and DecodeElement ::
    "nat \<Rightarrow> Decoder \<Rightarrow> xml_Name \<Rightarrow> xml_Attr list \<Rightarrow> (error option \<times> Element \<times> Decoder) option"
  and UnmarshalXML ::
    "nat \<Rightarrow> Element \<Rightarrow> Decoder \<Rightarrow> xml_Name \<Rightarrow> xml_Attr list \<Rightarrow>
       (error option \<times> Element \<times> Decoder) option"
where
  "UnmarshalXML_loop 0 out d = None"
| "UnmarshalXML_loop (Suc n) out d =
     (case Decoder_Token d of
        (Inl err, d) \<Rightarrow> if err = io_EOF then Some (None, out, d) else Some (Some err, out, d)
      | (Inr token, d) \<Rightarrow>
        (case token of
           StartElement nm attrs \<Rightarrow>
             (case DecodeElement n d nm attrs of
                None \<Rightarrow> None
              | Some (Some err, element, d) \<Rightarrow> Some (Some err, out, d)
              | Some (None, element, d) \<Rightarrow>
                  UnmarshalXML_loop n
                    (Element (name out) (attributes out) (children out @ [ElementPtr element])) d)
         | CharDataTok v \<Rightarrow>
             UnmarshalXML_loop n
               (Element (name out) (attributes out) (children out @ [CharData v])) d
         | CommentTok v \<Rightarrow>
             UnmarshalXML_loop n
               (Element (name out) (attributes out) (children out @ [Comment v])) d
         | _ \<Rightarrow> UnmarshalXML_loop n out d))"
| "DecodeElement n d nm attrs =
     (case UnmarshalXML n Element_zero (pushEOF d) nm attrs of
        None \<Rightarrow> None
      | Some (Some err, element, d) \<Rightarrow> Some (Some err, element, snd (popEOF d))
      | Some (None, element, d) \<Rightarrow>
          (case popEOF d of
             (False, d) \<Rightarrow> Some (Some xml_UnmarshalError, element, d)
           | (True, d) \<Rightarrow> Some (None, element, d)))"
| "UnmarshalXML n out d nm attrs =
     UnmarshalXML_loop n (Element (xml_Name [] (Local nm)) attrs (children out)) d"

text \<open>
  Modelled from the spec: \<open>Decoder.Decode\<close> with a non-nil \<open>*Element\<close>, as \<open>ExportProject\<close>
  calls it. It reads tokens up to the first start tag, which is the root of the document,
  and unmarshals the given element from there; an error of the decoder before the first
  start tag, the end of input included, is returned.
\<close>

fun Decode :: "nat \<Rightarrow> Decoder \<Rightarrow> Element \<Rightarrow> (error option \<times> Element \<times> Decoder) option" where
  "Decode 0 d element = None"
| "Decode (Suc n) d element =
     (case Decoder_Token d of
        (Inl err, d) \<Rightarrow> Some (Some err, element, d)
      | (Inr (StartElement nm attrs), d) \<Rightarrow>
          (case UnmarshalXML n element (pushEOF d) nm attrs of
             None \<Rightarrow> None
           | Some (Some err, element, d) \<Rightarrow> Some (Some err, element, snd (popEOF d))
           | Some (None, element, d) \<Rightarrow>
               (case popEOF d of
                  (False, d) \<Rightarrow> Some (Some xml_UnmarshalError, element, d)
                | (True, d) \<Rightarrow> Some (None, element, d)))
      | (Inr other, d) \<Rightarrow> Decode n d element)"

text \<open>
  Modelled from the spec: the state of \<open>xml.Encoder\<close>, which is not among the sources: the
  tokens that have been written, and the error of the underlying writer if it is broken
  (encoding fails only from the underlying sink). \<open>EncodeToken\<close> writes one token and
  \<open>Flush\<close> reports the writer's error.
\<close>

record Encoder =
  written :: "Token list"
  writer_error :: "error option"

definition EncodeToken :: "Encoder \<Rightarrow> Token \<Rightarrow> error option \<times> Encoder" where
  "EncodeToken e t =
     (case writer_error e of
        None \<Rightarrow> (None, e\<lparr>written := written e @ [t]\<rparr>)
      | Some err \<Rightarrow> (Some err, e))"

definition Flush :: "Encoder \<Rightarrow> error option \<times> Encoder" where
  "Flush e = (writer_error e, e)"

text \<open>
  \<open>MarshalXML\<close> is the source's method and \<open>MarshalXML_range\<close> its loop over the children.
  The results of the three kinds of \<open>EncodeToken\<close> calls are discarded by the source; the
  result of \<open>e.Encode(c)\<close> for an element child is returned when it is an error.

  Modelled from the spec: \<open>Encoder.Encode\<close> of an \<open>*Element\<close>, which runs the element's
  \<open>MarshalXML\<close> and then flushes the writer.
\<close>

fun MarshalXML :: "Element \<Rightarrow> Encoder \<Rightarrow> error option \<times> Encoder"
  and MarshalXML_range :: "Child list \<Rightarrow> Encoder \<Rightarrow> error option \<times> Encoder"
  and Encode :: "Element \<Rightarrow> Encoder \<Rightarrow> error option \<times> Encoder"
where
  "MarshalXML (Element nm attrs cs) e =
     (let e = snd (EncodeToken e (StartElement nm attrs))
      in case MarshalXML_range cs e of
           (Some err, e) \<Rightarrow> (Some err, e)
         | (None, e) \<Rightarrow> (None, snd (EncodeToken e (EndElement nm))))"
| "MarshalXML_range [] e = (None, e)"
| "MarshalXML_range (ElementPtr c # rest) e =
     (case Encode c e of
        (Some err, e) \<Rightarrow> (Some err, e)
      | (None, e) \<Rightarrow> MarshalXML_range rest e)"
| "MarshalXML_range (CharData v # rest) e =
     MarshalXML_range rest (snd (EncodeToken e (CharDataTok v)))"
| "MarshalXML_range (Comment v # rest) e =
     MarshalXML_range rest (snd (EncodeToken e (CommentTok v)))"
| "Encode v e =
     (case MarshalXML v e of
        (Some err, e) \<Rightarrow> (Some err, e)
      | (None, e) \<Rightarrow> Flush e)"

section \<open>The tree scanner\<close>

text \<open>
  \<open>scanTemplate\<close>. The callback receives a pointer to the element and may mutate it and the
  variables it has captured: it is a function from the element and a state \<open>'s\<close> to the
  mutated element and the new state. \<open>scanTemplate_range\<close> is the loop over the children;
  its last equation is the \<open>default\<close> branch of the type switch.
\<close>

fun scanTemplate :: "Element \<Rightarrow> (Element \<Rightarrow> 's \<Rightarrow> Element \<times> 's) \<Rightarrow> 's \<Rightarrow> Element \<times> 's"
  and scanTemplate_range :: "Child list \<Rightarrow> (Element \<Rightarrow> 's \<Rightarrow> Element \<times> 's) \<Rightarrow> 's \<Rightarrow> Child list \<times> 's"
where
  "scanTemplate (Element nm attrs cs) callback s =
     (if Local nm = ''ItemGroup'' then callback (Element nm attrs cs) s
      else
        let (cs', s') = scanTemplate_range cs callback s
        in (Element nm attrs cs', s'))"
| "scanTemplate_range [] callback s = ([], s)"
| "scanTemplate_range (ElementPtr child # rest) callback s =
     (let (child', s1) = scanTemplate child callback s;
          (rest', s2) = scanTemplate_range rest callback s1
      in (ElementPtr child' # rest', s2))"
| "scanTemplate_range (other # rest) callback s =
     (let (rest', s2) = scanTemplate_range rest callback s
      in (other # rest', s2))"

section \<open>The section rewriter\<close>

text \<open>
  \<open>overrideSources\<close>: the attribute slice is cut to length zero, then one loop over the
  files. The loop body is \<open>overrideSources_file\<close>, the loop \<open>overrideSources_loop\<close>.
\<close>

definition overrideSources_file :: "Element \<Rightarrow> string \<Rightarrow> Element" where
  "overrideSources_file element file0 =
     (let file = FromSlash file0;
          ext = Ext file
      in if ext \<noteq> ''.cpp'' \<and> ext \<noteq> ''.cxx'' then element
         else
           let element = AddChild element ''ClCompile'';
               element = via_child (\<lambda>child. AddAttribute child ''Include'' file) element
           in AddCharData element [CHR 0x0A])"

fun overrideSources_loop :: "Element \<Rightarrow> string list \<Rightarrow> Element" where
  "overrideSources_loop element [] = element"
| "overrideSources_loop element (file # files) =
     overrideSources_loop (overrideSources_file element file) files"

definition overrideSources :: "Element \<Rightarrow> string list \<Rightarrow> Element" where
  "overrideSources element files =
     overrideSources_loop (Element (name element) [] (children element)) files"

definition overrideHeaders_file :: "Element \<Rightarrow> string \<Rightarrow> Element" where
  "overrideHeaders_file element file0 =
     (let file = FromSlash file0;
          ext = Ext file
      in if ext \<noteq> ''.h'' then element
         else
           let element = AddChild element ''ClInclude'';
               element = via_child (\<lambda>child. AddAttribute child ''Include'' file) element
           in AddCharData element [CHR 0x0A])"

fun overrideHeaders_loop :: "Element \<Rightarrow> string list \<Rightarrow> Element" where
  "overrideHeaders_loop element [] = element"
| "overrideHeaders_loop element (file # files) =
     overrideHeaders_loop (overrideHeaders_file element file) files"

definition overrideHeaders :: "Element \<Rightarrow> string list \<Rightarrow> Element" where
  "overrideHeaders element files =
     overrideHeaders_loop (Element (name element) [] (children element)) files"



section \<open>The filter hierarchy builder\<close>

text \<open>
  What the two exported operations read from outside: the package variable \<open>UUIDSPACE\<close>,
  \<open>os.Args[0]\<close>, the answer of \<open>os.Getwd\<close>, and the two uses of \<open>os.OpenFile\<close>. \<open>Open path\<close>
  is the result of opening \<open>path\<close> for reading, the tokens of the document in the file.
  \<open>Create path\<close> is the result of opening \<open>path\<close> with \<open>O_CREATE | O_TRUNC\<close>: an error, or
  the file, given by the error that later writes to it meet (\<open>None\<close> when they succeed).
  What the operations do to the outside: the lines printed, and the files created with the
  tokens that reached them.
\<close>

record environment =
  UUIDSPACE :: string
  Args0 :: string
  Getwd :: "error + string"
  Open :: "string \<Rightarrow> error + Token list"
  Create :: "string \<Rightarrow> error + error option"

record effects =
  printed :: "string list"
  created :: "(string \<times> Token list) list"

text \<open>The value \<open>UUIDSPACE\<close> is initialised with.\<close>

definition UUIDSPACE_initial :: string where
  "UUIDSPACE_initial = ''10758f2f-f8bc-4d6b-aeaa-8131bf78a862''"

text \<open>
  The existence check \<open>for _, elm := range elmFilters.children { value :=
  elm.(*Element).attributes[0].Value; if path == value { filterExists = true; break } }\<close>.
  The type assertion panics on a child that is no element and the index on an element
  without attributes.
\<close>

fun filterExists_range :: "Child list \<Rightarrow> string \<Rightarrow> go_panic + bool" where
  "filterExists_range [] path = Inr False"
| "filterExists_range (ElementPtr elm # rest) path =
     (case attributes elm of
        [] \<Rightarrow> Inl IndexOutOfRange_panic
      | attr # _ \<Rightarrow> if path = Value attr then Inr True else filterExists_range rest path)"
| "filterExists_range (other # rest) path = Inl TypeAssertion_panic"

text \<open>The body of \<open>if !filterExists\<close>: a new filter declaration for \<open>path\<close>.\<close>

definition newFilter :: "UUID \<Rightarrow> Element \<Rightarrow> string \<Rightarrow> Element" where
  "newFilter space elmFilters path =
     (let idstr = UUID_String (NewSHA1 space (bytes_of path));
          elmFilters = AddChild elmFilters ''Filter'';
          elmFilters = via_child (\<lambda>child. AddAttribute child ''Include'' path) elmFilters;
          elmFilters = via_child (\<lambda>child. AddChild child ''UniqueIdentifier'') elmFilters
      in via_child (via_child (\<lambda>id. AddCharData id (''{'' @ idstr @ ''}''))) elmFilters)"

text \<open>
  The inner \<open>for\<close> loop, which walks from \<open>path\<close> to its ancestors: \<open>path, _ =
  filepath.Split(path)\<close>, stop when it is empty, else cut the separator at its end. The
  path gets shorter in every round.
\<close>

function exportFilter_path :: "UUID \<Rightarrow> Element \<Rightarrow> string \<Rightarrow> go_panic + Element" where
  "exportFilter_path space elmFilters path =
     (case filterExists_range (children elmFilters) path of
        Inl p \<Rightarrow> Inl p
      | Inr filterExists \<Rightarrow>
          let elmFilters = (if \<not> filterExists then newFilter space elmFilters path else elmFilters);
              path = fst (Split path)
          in if length path = 0 then Inr elmFilters
             else exportFilter_path space elmFilters (take (length path - 1) path))"
  by pat_completeness auto
termination
proof (relation "measure (\<lambda>(space, elmFilters, path). length path)", goal_cases)
  case 1
  show ?case by simp
next
  case (2 space elmFilters path b x xa)
  then have "length xa \<le> length path" and "xa \<noteq> []"
    by (auto simp: Split_def Let_def)
  then have "length xa - 1 < length path"
    by (cases xa) auto
  then show ?case by simp
qed

declare exportFilter_path.simps [simp del]

text \<open>
  The body of the loop over the files, on the pair of the two groupings. \<open>continue\<close> on an
  error of \<open>Rel\<close> leaves both as they are.
\<close>

definition exportFilter_file ::
  "UUID \<Rightarrow> string \<Rightarrow> Element \<times> Element \<Rightarrow> string \<Rightarrow> go_panic + Element \<times> Element" where
  "exportFilter_file space root elms file0 =
     (case elms of (elmFilters, elmEntries) \<Rightarrow>
        let file = FromSlash file0
        in case Rel root (Dir file) of
             Inl err \<Rightarrow> Inr (elmFilters, elmEntries)
           | Inr dir \<Rightarrow>
               let ext = Ext file;
                   name = (if ext = ''.h'' then Join [''Header Files'', dir]
                           else Join [''Source Files'', dir]);
                   tag = (if ext = ''.h'' then ''ClInclude'' else ''ClCompile'');
                   elmEntries = AddChild elmEntries tag;
                   elmEntries = via_child (\<lambda>child. AddAttribute child ''Include'' file) elmEntries;
                   elmEntries = via_child (\<lambda>child. AddChild child ''Filter'') elmEntries;
                   elmEntries = via_child (via_child (\<lambda>filter. AddCharData filter name)) elmEntries
               in case exportFilter_path space elmFilters name of
                    Inl p \<Rightarrow> Inl p
                  | Inr elmFilters \<Rightarrow> Inr (elmFilters, elmEntries))"

fun exportFilter_range ::
  "UUID \<Rightarrow> string \<Rightarrow> Element \<times> Element \<Rightarrow> string list \<Rightarrow> go_panic + Element \<times> Element" where
  "exportFilter_range space root elms [] = Inr elms"
| "exportFilter_range space root elms (file # files) =
     (case exportFilter_file space root elms file of
        Inl p \<Rightarrow> Inl p
      | Inr elms \<Rightarrow> exportFilter_range space root elms files)"

text \<open>
  The tree that \<open>exportFilter\<close> builds. \<open>elmFilters\<close> and \<open>elmEntries\<close> point to the first
  and the second child of \<open>project\<close>; the loop mutates them through these pointers and
  \<open>project\<close> is read only after the loop, so the two groupings are carried through the loop
  and put in their places at the end.
\<close>

definition exportFilter_project :: "UUID \<Rightarrow> string \<Rightarrow> string list \<Rightarrow> go_panic + Element" where
  "exportFilter_project space root files =
     (let project =
            Element (xml_Name ''http://schemas.microsoft.com/developer/msbuild/2003'' ''Project'')
              [] [];
          project = AddAttribute project ''ToolsVersion'' ''4.0'';
          elmFilters = Element (xml_Name [] ''ItemGroup'') [] [];
          elmEntries = Element (xml_Name [] ''ItemGroup'') [] []
      in case exportFilter_range space root (elmFilters, elmEntries) files of
           Inl p \<Rightarrow> Inl p
         | Inr (elmFilters, elmEntries) \<Rightarrow>
             Inr (Element (name project) (attributes project)
                    (children project @ [ElementPtr elmFilters, ElementPtr elmEntries])))"

text \<open>
  \<open>exportFilter\<close>. It returns nothing; an error of \<open>uuid.Parse\<close> ends it silently, an error
  of \<open>filepath.Abs\<close> or \<open>os.OpenFile\<close> with a printed line. The result of \<open>enc.Encode\<close> is
  discarded. \<open>enc.Indent\<close> adds white space between the tokens and none to them.
\<close>

definition exportFilter :: "environment \<Rightarrow> string list \<Rightarrow> string \<Rightarrow> go_panic + effects" where
  "exportFilter env files outpath =
     (case Parse (UUIDSPACE env) of
        Inl err \<Rightarrow> Inr \<lparr>printed = [], created = []\<rparr>
      | Inr space \<Rightarrow>
        (case Abs (Getwd env) (Dir ''./'') of
           Inl err \<Rightarrow>
             Inr \<lparr>printed = [''An error occurred while getting root path.''], created = []\<rparr>
         | Inr root \<Rightarrow>
           (case exportFilter_project space root files of
              Inl p \<Rightarrow> Inl p
            | Inr project \<Rightarrow>
              (case Create env outpath of
                 Inl err \<Rightarrow>
                   Inr \<lparr>printed = [''File opening error occurred while writing filters.''],
                        created = []\<rparr>
               | Inr werr \<Rightarrow>
                   let enc = snd (Encode project \<lparr>written = [], writer_error = werr\<rparr>)
                   in Inr \<lparr>printed = [], created = [(outpath, written enc)]\<rparr>))))"

section \<open>ExportProject\<close>


section \<open>Notions of the claims\<close>

text \<open>
  The contract of the tree scanner in its own words, to compare \<open>scanTemplate\<close> with. The
  elements of a tree in document order, each with the names of the elements above it
  (nearest first); text and comment children have no elements below them. The target name
  is \<open>ItemGroup\<close>. An element is visited when it has the target name and no element above
  it has.
\<close>

fun preorder :: "xml_Name list \<Rightarrow> Element \<Rightarrow> (xml_Name list \<times> Element) list"
  and preorder_children :: "xml_Name list \<Rightarrow> Child list \<Rightarrow> (xml_Name list \<times> Element) list"
where
  "preorder anc (Element nm attrs cs) =
     (anc, Element nm attrs cs) # preorder_children (nm # anc) cs"
| "preorder_children anc [] = []"
| "preorder_children anc (ElementPtr e # rest) = preorder anc e @ preorder_children anc rest"
| "preorder_children anc (other # rest) = preorder_children anc rest"

definition is_target :: "xml_Name \<Rightarrow> bool" where
  "is_target nm = (Local nm = ''ItemGroup'')"

definition outermost :: "xml_Name list \<times> Element \<Rightarrow> bool" where
  "outermost p = (is_target (name (snd p)) \<and> \<not> list_ex is_target (fst p))"

definition scan_visits :: "Element \<Rightarrow> Element list" where
  "scan_visits root = map snd (filter outermost (preorder [] root))"

text \<open>
  A template for examples: a text, the grouping \<open>A\<close> with a grouping inside it, an element
  \<open>Other\<close> with a comment and the grouping \<open>B\<close>, and the grouping \<open>C\<close>.
\<close>

definition example_template :: Element where
  "example_template =
     Element (xml_Name [] ''Project'') []
       [CharData ''a'',
        ElementPtr (Element (xml_Name [] ''ItemGroup'') [xml_Attr (xml_Name [] ''Label'') ''A'']
          [ElementPtr (Element (xml_Name [] ''ItemGroup'')
             [xml_Attr (xml_Name [] ''Label'') ''inner''] [])]),
        ElementPtr (Element (xml_Name [] ''Other'') []
          [Comment ''c'',
           ElementPtr (Element (xml_Name [] ''ItemGroup'')
             [xml_Attr (xml_Name [] ''Label'') ''B''] [])]),
        ElementPtr (Element (xml_Name [] ''ItemGroup'') [xml_Attr (xml_Name [] ''Label'') ''C''] [])]"

text \<open>
  The filter declaration of a category path: the element \<open>Filter\<close> whose only attribute is
  \<open>Include\<close> with the path and whose only child is \<open>UniqueIdentifier\<close> with the stable
  identifier of the path in braces.
\<close>

definition filter_declaration :: "UUID \<Rightarrow> string \<Rightarrow> Child" where
  "filter_declaration space path =
     ElementPtr (Element (xml_Name [] ''Filter'') [xml_Attr (xml_Name [] ''Include'') path]
       [ElementPtr (Element (xml_Name [] ''UniqueIdentifier'') []
          [CharData (''{'' @ UUID_String (NewSHA1 space (bytes_of path)) @ ''}'')])])"

text \<open>
  \<open>ancestors path\<close> is the path followed by its ancestor prefixes, each obtained from the
  one before by stripping the last segment and the separator in front of it. \<open>add_missing
  ps qs\<close> adds to \<open>ps\<close>, at its end and in the order of \<open>qs\<close>, the paths of \<open>qs\<close> that are not
  in it yet.
\<close>

function ancestors :: "string \<Rightarrow> string list" where
  "ancestors path =
     path # (let dir = fst (Split path)
             in if dir = [] then [] else ancestors (butlast dir))"
  by pat_completeness auto
termination
proof (relation "measure length", goal_cases)
  case 1
  show ?case by simp
next
  case (2 path x)
  then have "length x \<le> length path" and "x \<noteq> []"
    by (auto simp: Split_def Let_def)
  then show ?case by (cases x rule: rev_cases) auto
qed

declare ancestors.simps [simp del]

definition add_missing :: "string list \<Rightarrow> string list \<Rightarrow> string list" where
  "add_missing ps qs = fold (\<lambda>q ps. if q \<in> set ps then ps else ps @ [q]) qs ps"

text \<open>
  A file resolves when its directory can be made relative to the root. Its tag and its
  top-level folder are those of a header for the extension \<open>.h\<close> and those of a source for
  every other extension; its category path joins the folder and the relative directory. Its
  entry is the element with that tag whose only attribute is \<open>Include\<close> with the file path
  and whose only child is \<open>Filter\<close> with the category path. \<open>filter_paths ps root files\<close>
  are the paths declared after the files, starting from the declared paths \<open>ps\<close>.
\<close>

definition resolves :: "string \<Rightarrow> string \<Rightarrow> bool" where
  "resolves root file = (case Rel root (Dir file) of Inl err \<Rightarrow> False | Inr dir \<Rightarrow> True)"

definition relative_dir :: "string \<Rightarrow> string \<Rightarrow> string" where
  "relative_dir root file = (case Rel root (Dir file) of Inl err \<Rightarrow> [] | Inr dir \<Rightarrow> dir)"

definition tag_of :: "string \<Rightarrow> string" where
  "tag_of file = (if Ext file = ''.h'' then ''ClInclude'' else ''ClCompile'')"

definition folder_of :: "string \<Rightarrow> string" where
  "folder_of file = (if Ext file = ''.h'' then ''Header Files'' else ''Source Files'')"

definition category_path :: "string \<Rightarrow> string \<Rightarrow> string" where
  "category_path root file = Join [folder_of file, relative_dir root file]"

definition filter_entry :: "string \<Rightarrow> string \<Rightarrow> Child" where
  "filter_entry root file =
     ElementPtr (Element (xml_Name [] (tag_of file)) [xml_Attr (xml_Name [] ''Include'') file]
       [ElementPtr (Element (xml_Name [] ''Filter'') [] [CharData (category_path root file)])])"

definition filter_paths :: "string list \<Rightarrow> string \<Rightarrow> string list \<Rightarrow> string list" where
  "filter_paths ps root files =
     fold (\<lambda>file ps. add_missing ps (ancestors (category_path root file)))
       (filter (resolves root) files) ps"

text \<open>
  A child of the filters grouping is well formed for the existence check when it is an
  element with at least one attribute, the first of which is \<open>Include\<close>; \<open>path_of\<close> is the
  value of that attribute. \<open>filters_grouping\<close> and \<open>entries_grouping\<close> are the children of
  the first and of the second child of the project element.
\<close>

definition path_first :: "Child \<Rightarrow> bool" where
  "path_first c =
     (case c of
        ElementPtr e \<Rightarrow> (case attributes e of [] \<Rightarrow> False | a # _ \<Rightarrow> Local (Name a) = ''Include'')
      | _ \<Rightarrow> False)"

definition path_of :: "Child \<Rightarrow> string" where
  "path_of c =
     (case c of
        ElementPtr e \<Rightarrow> (case attributes e of [] \<Rightarrow> [] | a # _ \<Rightarrow> Value a)
      | _ \<Rightarrow> [])"

definition filters_grouping :: "Element \<Rightarrow> Child list" where
  "filters_grouping project = (case children project of ElementPtr g # _ \<Rightarrow> children g | _ \<Rightarrow> [])"

definition entries_grouping :: "Element \<Rightarrow> Child list" where
  "entries_grouping project =
     (case children project of _ # ElementPtr g # _ \<Rightarrow> children g | _ \<Rightarrow> [])"

text \<open>
  An environment for examples: the working directory is \<open>/w\<close>, the namespace is the initial
  one, the template has one grouping labelled \<open>Sources\<close>, and every file can be created and
  written.
\<close>

definition example_environment :: environment where
  "example_environment =
     \<lparr>UUIDSPACE = UUIDSPACE_initial, Args0 = ''/opt/tool/msbuild'', Getwd = Inr ''/w'',
      Open = (\<lambda>path. if path = ''/opt/tool/template.vcxproj''
                      then Inr [StartElement (xml_Name [] ''Project'') [],
                                StartElement (xml_Name [] ''ItemGroup'')
                                  [xml_Attr (xml_Name [] ''Label'') ''Sources''],
                                EndElement (xml_Name [] ''ItemGroup''),
                                EndElement (xml_Name [] ''Project'')]
                      else Inl os_PathError),
      Create = (\<lambda>path. Inr None)\<rparr>"

text \<open>
  The tokens of a tree in document order, the tree without the namespaces of its element
  names, and the trees whose element names have no namespace, as every tree made of
  \<open>&Element{}\<close>, \<open>AddChild\<close>, \<open>AddAttribute\<close> and \<open>AddCharData\<close> is. \<open>encode tree\<close> is what
  \<open>Encode\<close> writes for the tree to a writer that works.
\<close>

fun tokens_of :: "Element \<Rightarrow> Token list"
  and tokens_of_children :: "Child list \<Rightarrow> Token list"
where
  "tokens_of (Element nm attrs cs) =
     StartElement nm attrs # tokens_of_children cs @ [EndElement nm]"
| "tokens_of_children [] = []"
| "tokens_of_children (ElementPtr c # rest) = tokens_of c @ tokens_of_children rest"
| "tokens_of_children (CharData v # rest) = CharDataTok v # tokens_of_children rest"
| "tokens_of_children (Comment v # rest) = CommentTok v # tokens_of_children rest"

fun strip :: "Element \<Rightarrow> Element"
  and strip_children :: "Child list \<Rightarrow> Child list"
where
  "strip (Element nm attrs cs) = Element (xml_Name [] (Local nm)) attrs (strip_children cs)"
| "strip_children [] = []"
| "strip_children (ElementPtr c # rest) = ElementPtr (strip c) # strip_children rest"
| "strip_children (other # rest) = other # strip_children rest"

fun no_namespace :: "Element \<Rightarrow> bool"
  and no_namespace_children :: "Child list \<Rightarrow> bool"
where
  "no_namespace (Element nm attrs cs) = (Space nm = [] \<and> no_namespace_children cs)"
| "no_namespace_children [] = True"
| "no_namespace_children (ElementPtr c # rest) = (no_namespace c \<and> no_namespace_children rest)"
| "no_namespace_children (other # rest) = no_namespace_children rest"

definition encode :: "Element \<Rightarrow> Token list" where
  "encode tree = written (snd (Encode tree \<lparr>written = [], writer_error = None\<rparr>))"


section \<open>Properties of the node operations\<close>

lemma FromSlash_id: "FromSlash path = path"
  by (induction path) (simp_all add: FromSlash_def Separator_def)

lemma via_child_AddChild:
  "via_child f (AddChild e nm) =
     Element (name e) (attributes e) (children e @ [ElementPtr (f (Element (xml_Name [] nm) [] []))])"
  by (simp add: via_child_def AddChild_def)


section \<open>Properties of the section rewriter\<close>

text \<open>
  The two children that one accepted file adds: the entry element, whose only attribute
  is \<open>Include\<close> with the file path, and the newline text.
\<close>

abbreviation entry :: "string \<Rightarrow> string \<Rightarrow> Child list" where
  "entry tag file \<equiv>
     [ElementPtr (Element (xml_Name [] tag) [xml_Attr (xml_Name [] ''Include'') file] []),
      CharData [CHR 0x0A]]"

lemma overrideSources_file_eq:
  "overrideSources_file e f =
     Element (name e) (attributes e)
       (children e @ (if Ext f = ''.cpp'' \<or> Ext f = ''.cxx'' then entry ''ClCompile'' f else []))"
  by (cases e)
     (simp add: overrideSources_file_def FromSlash_id via_child_AddChild AddAttribute_def
        AddCharData_def Let_def)

lemma overrideSources_loop_eq:
  "overrideSources_loop e fs =
     Element (name e) (attributes e)
       (children e @
        concat (map (entry ''ClCompile'') (filter (\<lambda>f. Ext f = ''.cpp'' \<or> Ext f = ''.cxx'') fs)))"
  by (induction fs arbitrary: e) (simp_all add: overrideSources_file_eq)

lemma overrideHeaders_file_eq:
  "overrideHeaders_file e f =
     Element (name e) (attributes e)
       (children e @ (if Ext f = ''.h'' then entry ''ClInclude'' f else []))"
  by (cases e)
     (simp add: overrideHeaders_file_def FromSlash_id via_child_AddChild AddAttribute_def
        AddCharData_def Let_def)

lemma overrideHeaders_loop_eq:
  "overrideHeaders_loop e fs =
     Element (name e) (attributes e)
       (children e @ concat (map (entry ''ClInclude'') (filter (\<lambda>f. Ext f = ''.h'') fs)))"
  by (induction fs arbitrary: e) (simp_all add: overrideHeaders_file_eq)

lemma Ext_examples:
  "Ext ''a.cpp'' = ''.cpp''" "Ext ''b.h'' = ''.h''" "Ext ''c.cxx'' = ''.cxx''"
  "Ext ''d.txt'' = ''.txt''"
  by code_simp+

text \<open>
  C4 (extension filtering). Each policy empties the attribute list and appends, in input
  order and keeping repeated paths, the two children \<open>entry tag file\<close> for every file whose
  extension is accepted (\<open>.cpp\<close> or \<open>.cxx\<close> for Sources, \<open>.h\<close> for Headers) and nothing for
  any other file. On \<open>["a.cpp","b.h","c.cxx","d.txt"]\<close> Sources appends the entries of
  \<open>a.cpp\<close> and \<open>c.cxx\<close> in that order, Headers the entry of \<open>b.h\<close>, and \<open>d.txt\<close> is in
  neither.
\<close>

theorem extension_filtering:
  "overrideSources element files =
     Element (name element) []
       (children element @
        concat (map (entry ''ClCompile'')
          (filter (\<lambda>f. Ext f = ''.cpp'' \<or> Ext f = ''.cxx'') files)))
   \<and> overrideHeaders element files =
     Element (name element) []
       (children element @
        concat (map (entry ''ClInclude'') (filter (\<lambda>f. Ext f = ''.h'') files)))
   \<and> overrideSources element [''a.cpp'', ''b.h'', ''c.cxx'', ''d.txt''] =
     Element (name element) []
       (children element @ entry ''ClCompile'' ''a.cpp'' @ entry ''ClCompile'' ''c.cxx'')
   \<and> overrideHeaders element [''a.cpp'', ''b.h'', ''c.cxx'', ''d.txt''] =
     Element (name element) [] (children element @ entry ''ClInclude'' ''b.h'')"
  by (simp add: overrideSources_def overrideHeaders_def overrideSources_loop_eq
      overrideHeaders_loop_eq Ext_examples)

text \<open>
  C1 (destructive rewrite), as the claim states it, fails: a grouping element that has a
  comment child keeps it, in front of the generated entry.
\<close>

theorem destructive_rewrite_counterexample:
  "children
     (overrideSources
        (Element (xml_Name [] ''ItemGroup'') [xml_Attr (xml_Name [] ''Label'') ''Sources'']
           [Comment ''old''])
        [''a.cpp'']) =
     Comment ''old'' # entry ''ClCompile'' ''a.cpp''
   \<and> children
     (overrideSources
        (Element (xml_Name [] ''ItemGroup'') [xml_Attr (xml_Name [] ''Label'') ''Sources'']
           [Comment ''old''])
        [''a.cpp'']) \<noteq>
     entry ''ClCompile'' ''a.cpp''"
  by (simp add: overrideSources_def overrideSources_loop_eq Ext_examples)

text \<open>
  C1, amended. After either policy the attribute list is empty and the name is the same;
  the children are the original children, unchanged and in their order, followed by
  exactly the generated entries.
\<close>

theorem rewrite_drops_attributes_keeps_children:
  "attributes (overrideSources element files) = []
   \<and> attributes (overrideHeaders element files) = []
   \<and> name (overrideSources element files) = name element
   \<and> name (overrideHeaders element files) = name element
   \<and> take (length (children element)) (children (overrideSources element files)) =
       children element
   \<and> drop (length (children element)) (children (overrideSources element files)) =
       concat (map (entry ''ClCompile'')
         (filter (\<lambda>f. Ext f = ''.cpp'' \<or> Ext f = ''.cxx'') files))
   \<and> take (length (children element)) (children (overrideHeaders element files)) =
       children element
   \<and> drop (length (children element)) (children (overrideHeaders element files)) =
       concat (map (entry ''ClInclude'') (filter (\<lambda>f. Ext f = ''.h'') files))"
  by (simp add: overrideSources_def overrideHeaders_def overrideSources_loop_eq
      overrideHeaders_loop_eq)

section \<open>Properties of the tree scanner\<close>

lemma outermost_pair: "outermost (a, x) = (is_target (name x) \<and> \<not> list_ex is_target a)"
  by (simp add: outermost_def)

lemma preorder_anc:
  "(a, x) \<in> set (preorder anc e) \<Longrightarrow> \<exists>pre. a = pre @ anc"
  "(a, x) \<in> set (preorder_children anc cs) \<Longrightarrow> \<exists>pre. a = pre @ anc"
proof (induction anc e and anc cs arbitrary: a x and a x rule: preorder_preorder_children.induct)
  case (1 anc nm attrs cs)
  then show ?case by (fastforce simp: append_eq_Cons_conv)
qed auto

lemma below_target_none:
  assumes "list_ex is_target anc"
  shows "filter outermost (preorder anc e) = []"
    and "filter outermost (preorder_children anc cs) = []"
proof -
  have "\<not> outermost (a, x)" if "\<exists>pre. a = pre @ anc" for a x
    using that assms by (auto simp: outermost_def list_ex_iff)
  then show "filter outermost (preorder anc e) = []"
    and "filter outermost (preorder_children anc cs) = []"
    by (auto simp: filter_empty_conv dest: preorder_anc)
qed

lemma scan_calls:
  "\<not> list_ex is_target anc \<Longrightarrow>
     snd (scanTemplate e cb s) =
       fold (\<lambda>x t. snd (cb x t)) (map snd (filter outermost (preorder anc e))) s"
  "\<not> list_ex is_target anc \<Longrightarrow>
     snd (scanTemplate_range cs cb s) =
       fold (\<lambda>x t. snd (cb x t)) (map snd (filter outermost (preorder_children anc cs))) s"
proof (induction e cb s and cs cb s arbitrary: anc and anc rule: scanTemplate_scanTemplate_range.induct)
  case (1 nm attrs cs callback s)
  show ?case
  proof (cases "Local nm = ''ItemGroup''")
    case True
    then have t: "is_target nm" by (simp add: is_target_def)
    then have "list_ex is_target (nm # anc)" by simp
    from below_target_none(2)[OF this] True t "1.prems" show ?thesis
      by (simp add: outermost_pair)
  next
    case False
    then have t: "\<not> is_target nm" by (simp add: is_target_def)
    then have "\<not> list_ex is_target (nm # anc)" using "1.prems" by simp
    from "1.IH"[OF False this] False t show ?thesis
      by (simp add: outermost_pair case_prod_beta)
  qed
next
  case (3 child rest callback s)
  obtain child' s1 where c: "scanTemplate child callback s = (child', s1)"
    by (cases "scanTemplate child callback s")
  have a: "s1 = fold (\<lambda>x t. snd (callback x t)) (map snd (filter outermost (preorder anc child))) s"
    using "3.IH"(1)[OF "3.prems"] c by simp
  have b: "snd (scanTemplate_range rest callback s1) =
      fold (\<lambda>x t. snd (callback x t)) (map snd (filter outermost (preorder_children anc rest))) s1"
    using "3.IH"(2)[OF refl c[symmetric] "3.prems"] .
  show ?case using a b c by (simp add: case_prod_beta)
qed (simp_all add: case_prod_beta)

lemma scan_frame:
  "fst (scanTemplate e (\<lambda>x t. (x, g x t)) s) = e"
  "fst (scanTemplate_range cs (\<lambda>x t. (x, g x t)) s) = cs"
proof (induction e "\<lambda>x t. (x, g x t)" s and cs "\<lambda>x t. (x, g x t)" s
      rule: scanTemplate_scanTemplate_range.induct)
  case (3 child rest s)
  obtain child' s1 where c: "scanTemplate child (\<lambda>x t. (x, g x t)) s = (child', s1)"
    by (cases "scanTemplate child (\<lambda>x t. (x, g x t)) s")
  from "3.hyps"(1) c have "child' = child" by simp
  moreover from "3.hyps"(2)[OF refl c[symmetric]]
  have "fst (scanTemplate_range rest (\<lambda>x t. (x, g x t)) s1) = rest" .
  ultimately show ?case using c by (simp add: case_prod_beta)
qed (simp_all add: case_prod_beta)

text \<open>
  C5 (tree scanner contract). Whatever the callback does, the calls that \<open>scanTemplate\<close>
  makes are exactly the calls on the visited elements of the tree as it was given, one
  after the other in document order: the elements named \<open>ItemGroup\<close> that have no element
  of that name above them. So every such element is visited, nothing below a match is, and
  text and comment children are passed over. The scan itself changes nothing: with a
  callback that leaves its element as it is, the tree is returned as it was.
\<close>

theorem scan_contract:
  "snd (scanTemplate root callback s) = fold (\<lambda>e t. snd (callback e t)) (scan_visits root) s
   \<and> fst (scanTemplate root (\<lambda>e t. (e, g e t)) s) = root"
  using scan_calls(1)[of "[]" root callback s] by (simp add: scan_visits_def scan_frame)

lemma scan_visits_example:
  "map attributes (scan_visits example_template) =
     [[xml_Attr (xml_Name [] ''Label'') ''A''], [xml_Attr (xml_Name [] ''Label'') ''B''],
      [xml_Attr (xml_Name [] ''Label'') ''C'']]"
  by code_simp

text \<open>
  On the example template the callback that records the attributes of its argument is
  called on the groupings \<open>A\<close>, \<open>B\<close> and \<open>C\<close>, and not on the grouping inside \<open>A\<close>.
\<close>

theorem scan_contract_witness:
  "snd (scanTemplate example_template (\<lambda>e t. (e, t @ [attributes e])) []) =
     [[xml_Attr (xml_Name [] ''Label'') ''A''], [xml_Attr (xml_Name [] ''Label'') ''B''],
      [xml_Attr (xml_Name [] ''Label'') ''C'']]"
proof -
  have "fold (\<lambda>e t. t @ [attributes e]) es t = t @ map attributes es" for es and t :: "xml_Attr list list"
    by (induction es arbitrary: t) simp_all
  then show ?thesis
    using scan_contract[of example_template "\<lambda>e t. (e, t @ [attributes e])" "[]"]
    by (simp add: scan_visits_example)
qed

section \<open>Properties of the filter hierarchy builder\<close>

lemma via_child_last:
  "via_child f (Element n a (cs @ [ElementPtr c])) = Element n a (cs @ [ElementPtr (f c)])"
  by (simp add: via_child_def)

lemma via_child_single:
  "via_child f (Element n a [ElementPtr c]) = Element n a [ElementPtr (f c)]"
  by (simp add: via_child_def)

lemma newFilter_eq:
  "newFilter space e path =
     Element (name e) (attributes e) (children e @ [filter_declaration space path])"
  by (simp add: newFilter_def Let_def via_child_AddChild via_child_last via_child_single AddChild_def
      AddAttribute_def AddCharData_def filter_declaration_def)

lemma filterExists_declarations:
  "filterExists_range (map (filter_declaration space) ps) path = Inr (path \<in> set ps)"
  by (induction ps) (auto simp: filter_declaration_def)

lemma add_missing_simps:
  "add_missing ps [] = ps"
  "add_missing ps (q # qs) = add_missing (if q \<in> set ps then ps else ps @ [q]) qs"
  by (simp_all add: add_missing_def)

lemma exportFilter_path_eq:
  "children e = map (filter_declaration space) ps \<Longrightarrow>
   exportFilter_path space e path =
     Inr (Element (name e) (attributes e)
            (map (filter_declaration space) (add_missing ps (ancestors path))))"
proof (induction path arbitrary: e ps rule: ancestors.induct)
  case (1 path)
  let ?ps = "if path \<in> set ps then ps else ps @ [path]"
  let ?e = "if path \<in> set ps then e else newFilter space e path"
  have ch: "children ?e = map (filter_declaration space) ?ps"
    using "1.prems" by (simp add: newFilter_eq)
  have nm: "name ?e = name e" "attributes ?e = attributes e"
    by (simp_all add: newFilter_eq)
  show ?case
  proof (cases "fst (Split path) = []")
    case True
    then show ?thesis
      using "1.prems" ch nm
      by (subst exportFilter_path.simps, subst ancestors.simps)
         (cases e, auto simp: filterExists_declarations Let_def add_missing_simps newFilter_eq)
  next
    case False
    have "exportFilter_path space ?e (butlast (fst (Split path))) =
        Inr (Element (name ?e) (attributes ?e)
               (map (filter_declaration space)
                  (add_missing ?ps (ancestors (butlast (fst (Split path)))))))"
      by (rule "1.IH"[OF refl False ch])
    then show ?thesis
      using "1.prems" False nm
      by (subst exportFilter_path.simps, subst ancestors.simps)
         (auto simp: filterExists_declarations Let_def add_missing_simps butlast_conv_take)
  qed
qed


lemma exportFilter_file_skip:
  "\<not> resolves root file \<Longrightarrow> exportFilter_file space root elms file = Inr elms"
  by (cases elms) (auto simp: exportFilter_file_def resolves_def FromSlash_id split: sum.splits)

lemma exportFilter_file_eq:
  assumes "resolves root file" and "children F = map (filter_declaration space) ps"
  shows "exportFilter_file space root (F, E) file =
     Inr (Element (name F) (attributes F)
            (map (filter_declaration space)
               (add_missing ps (ancestors (category_path root file)))),
          Element (name E) (attributes E) (children E @ [filter_entry root file]))"
proof -
  from assms(1) obtain dir where d: "Rel root (Dir file) = Inr dir"
    by (auto simp: resolves_def split: sum.splits)
  have c: "category_path root file =
      (if Ext file = ''.h'' then Join [''Header Files'', dir] else Join [''Source Files'', dir])"
    using d by (simp add: category_path_def folder_of_def relative_dir_def)
  show ?thesis
    using d exportFilter_path_eq[OF assms(2), of "category_path root file"]
    by (simp add: exportFilter_file_def FromSlash_id Let_def c[symmetric] via_child_AddChild
        via_child_last via_child_single AddChild_def AddAttribute_def AddCharData_def
        filter_entry_def tag_of_def)
qed

lemma exportFilter_range_eq:
  "children F = map (filter_declaration space) ps \<Longrightarrow>
   exportFilter_range space root (F, E) files =
     Inr (Element (name F) (attributes F)
            (map (filter_declaration space) (filter_paths ps root files)),
          Element (name E) (attributes E)
            (children E @ map (filter_entry root) (filter (resolves root) files)))"
proof (induction files arbitrary: F E ps)
  case Nil
  then show ?case by (cases F; cases E) (simp add: filter_paths_def)
next
  case (Cons f fs)
  show ?case
  proof (cases "resolves root f")
    case False
    then show ?thesis
      using Cons.IH[OF Cons.prems, of E]
      by (simp add: exportFilter_file_skip filter_paths_def)
  next
    case True
    let ?F = "Element (name F) (attributes F)
            (map (filter_declaration space)
               (add_missing ps (ancestors (category_path root f))))"
    let ?E = "Element (name E) (attributes E) (children E @ [filter_entry root f])"
    have "children ?F = map (filter_declaration space)
        (add_missing ps (ancestors (category_path root f)))" by simp
    from Cons.IH[OF this, of ?E] True exportFilter_file_eq[OF True Cons.prems, of E]
    show ?thesis by (simp add: filter_paths_def)
  qed
qed

lemma exportFilter_project_eq:
  "exportFilter_project space root files =
     Inr (Element (xml_Name ''http://schemas.microsoft.com/developer/msbuild/2003'' ''Project'')
            [xml_Attr (xml_Name [] ''ToolsVersion'') ''4.0'']
            [ElementPtr (Element (xml_Name [] ''ItemGroup'') []
               (map (filter_declaration space) (filter_paths [] root files))),
             ElementPtr (Element (xml_Name [] ''ItemGroup'') []
               (map (filter_entry root) (filter (resolves root) files)))])"
  using exportFilter_range_eq[of "Element (xml_Name [] ''ItemGroup'') [] []" space "[]" root
      "Element (xml_Name [] ''ItemGroup'') [] []" files]
  by (simp add: exportFilter_project_def AddAttribute_def Let_def)

lemma filterExists_safe:
  "list_all path_first cs \<Longrightarrow>
   filterExists_range cs path = Inr (path \<in> set (map path_of cs))"
proof (induction cs)
  case Nil
  then show ?case by simp
next
  case (Cons c cs)
  then show ?case
    by (cases c) (auto simp: path_first_def path_of_def split: list.splits)
qed

lemma path_first_declaration: "path_first (filter_declaration space path)"
  by (simp add: path_first_def filter_declaration_def)

lemma exportFilter_path_inv:
  "list_all path_first (children e) \<Longrightarrow>
   \<exists>e'. exportFilter_path space e path = Inr e' \<and> list_all path_first (children e')"
proof (induction space e path rule: exportFilter_path.induct)
  case (1 space elmFilters path)
  let ?b = "path \<in> set (map path_of (children elmFilters))"
  let ?e = "if \<not> ?b then newFilter space elmFilters path else elmFilters"
  have fe: "filterExists_range (children elmFilters) path = Inr ?b"
    by (rule filterExists_safe[OF "1.prems"])
  have inv: "list_all path_first (children ?e)"
    using "1.prems" by (simp add: newFilter_eq path_first_declaration)
  show ?case
  proof (cases "length (fst (Split path)) = 0")
    case True
    then show ?thesis
      using fe inv by (subst exportFilter_path.simps) (simp add: Let_def)
  next
    case False
    from "1.IH"[OF fe refl refl False inv]
    show ?thesis
      using fe False by (subst exportFilter_path.simps) (simp add: Let_def)
  qed
qed

lemma exportFilter_file_inv:
  assumes "list_all path_first (children F)"
  shows "\<exists>F' E'. exportFilter_file space root (F, E) f = Inr (F', E') \<and>
     list_all path_first (children F')"
proof (cases "Rel root (Dir (FromSlash f))")
  case (Inl err)
  then show ?thesis using assms by (simp add: exportFilter_file_def)
next
  case (Inr dir)
  obtain F' where
    "exportFilter_path space F
       (if Ext (FromSlash f) = ''.h'' then Join [''Header Files'', dir]
        else Join [''Source Files'', dir]) = Inr F'"
    and "list_all path_first (children F')"
    using exportFilter_path_inv[OF assms] by blast
  then show ?thesis using Inr by (simp add: exportFilter_file_def Let_def)
qed

lemma exportFilter_range_inv:
  "list_all path_first (children F) \<Longrightarrow>
   \<exists>F' E'. exportFilter_range space root (F, E) files = Inr (F', E') \<and>
     list_all path_first (children F')"
proof (induction files arbitrary: F E)
  case Nil
  then show ?case by simp
next
  case (Cons f fs)
  obtain F1 E1 where s: "exportFilter_file space root (F, E) f = Inr (F1, E1)"
    and i: "list_all path_first (children F1)"
    using exportFilter_file_inv[OF Cons.prems] by blast
  from Cons.IH[OF i, of E1] s show ?case by simp
qed

lemma exportFilter_range_append:
  "exportFilter_range space root elms (xs @ ys) =
     (case exportFilter_range space root elms xs of
        Inl p \<Rightarrow> Inl p
      | Inr elms' \<Rightarrow> exportFilter_range space root elms' ys)"
  by (induction xs arbitrary: elms) (simp_all split: sum.splits)

lemma exportFilter_range_skip:
  assumes "Rel root (Dir (FromSlash f)) = Inl err"
  shows "exportFilter_range space root elms (xs @ f # ys) =
    exportFilter_range space root elms (xs @ ys)"
proof -
  have "exportFilter_file space root e f = Inr e" for e
    using assms by (cases e) (simp add: exportFilter_file_def)
  then show ?thesis
    by (simp add: exportFilter_range_append split: sum.splits)
qed

lemma add_missing_distinct: "distinct ps \<Longrightarrow> distinct (add_missing ps qs)"
  by (induction qs arbitrary: ps) (simp_all add: add_missing_simps)

lemma add_missing_set: "set (add_missing ps qs) = set ps \<union> set qs"
  by (induction qs arbitrary: ps) (auto simp: add_missing_simps)

lemma filter_paths_Cons:
  "filter_paths ps root (f # fs) =
     filter_paths
       (if resolves root f then add_missing ps (ancestors (category_path root f)) else ps)
       root fs"
  by (simp add: filter_paths_def)

lemma filter_paths_distinct: "distinct ps \<Longrightarrow> distinct (filter_paths ps root files)"
proof (induction files arbitrary: ps)
  case Nil
  then show ?case by (simp add: filter_paths_def)
next
  case (Cons f fs)
  then show ?case by (simp add: filter_paths_Cons add_missing_distinct)
qed

lemma filter_paths_set:
  "set (filter_paths ps root files) =
     set ps \<union> (\<Union>f \<in> set (filter (resolves root) files). set (ancestors (category_path root f)))"
proof (induction files arbitrary: ps)
  case Nil
  then show ?case by (simp add: filter_paths_def)
next
  case (Cons f fs)
  then show ?case by (auto simp: filter_paths_Cons add_missing_set)
qed

lemma filters_grouping_project:
  "map_sum id filters_grouping (exportFilter_project space root files) =
     Inr (map (filter_declaration space) (filter_paths [] root files))"
  by (simp add: exportFilter_project_eq filters_grouping_def)

lemma entries_grouping_project:
  "map_sum id entries_grouping (exportFilter_project space root files) =
     Inr (map (filter_entry root) (filter (resolves root) files))"
  by (simp add: exportFilter_project_eq entries_grouping_def)

lemma Clean_backtrack_ge: "dotdot \<le> w \<Longrightarrow> dotdot \<le> Clean_backtrack out dotdot w"
  by (induction out dotdot w rule: Clean_backtrack.induct) auto

lemma hd_take_pos: "0 < k \<Longrightarrow> xs \<noteq> [] \<Longrightarrow> hd (take k xs) = hd xs \<and> take k xs \<noteq> []"
  by (cases xs; cases k) auto

lemma Clean_loop_rooted:
  "rooted \<Longrightarrow> out \<noteq> [] \<Longrightarrow> hd out = Separator \<Longrightarrow> 1 \<le> dotdot \<Longrightarrow>
   Clean_loop rooted rest out dotdot \<noteq> [] \<and> hd (Clean_loop rooted rest out dotdot) = Separator"
proof (induction rooted rest out dotdot rule: Clean_loop.induct)
  case (1 rooted out dotdot)
  then show ?case by simp
next
  case (2 rooted c cs out dotdot)
  have bt: "length out > dotdot \<Longrightarrow>
      take (Clean_backtrack out dotdot (length out - 1)) out \<noteq> [] \<and>
      hd (take (Clean_backtrack out dotdot (length out - 1)) out) = Separator"
  proof -
    assume "length out > dotdot"
    then have "dotdot \<le> Clean_backtrack out dotdot (length out - 1)"
      by (intro Clean_backtrack_ge) simp
    then have "0 < Clean_backtrack out dotdot (length out - 1)" using "2.prems"(4) by simp
    from hd_take_pos[OF this "2.prems"(2)] "2.prems"(3) show ?thesis by simp
  qed
  show ?case
    using "2.IH" "2.prems" bt
    by (simp add: Let_def split: if_splits)
qed


lemma Clean_loop_unrooted:
  "\<not> rooted \<Longrightarrow> out = [] \<or> hd out \<noteq> Separator \<Longrightarrow>
   Clean_loop rooted rest out dotdot = [] \<or> hd (Clean_loop rooted rest out dotdot) \<noteq> Separator"
proof (induction rooted rest out dotdot rule: Clean_loop.induct)
  case (1 rooted out dotdot)
  then show ?case by simp
next
  case (2 rooted c cs out dotdot)
  have bt: "take k out = [] \<or> hd (take k out) \<noteq> Separator" for k
    using "2.prems"(2) by (cases out; cases k) auto
  have el: "\<not> IsPathSeparator c \<Longrightarrow>
      hd (takeWhile (\<lambda>x. \<not> IsPathSeparator x) (c # cs)) \<noteq> Separator \<and>
      takeWhile (\<lambda>x. \<not> IsPathSeparator x) (c # cs) \<noteq> []"
    by (simp add: IsPathSeparator_def)
  show ?case
    using "2.IH" "2.prems" bt el
    by (auto simp: Let_def Separator_def hd_append split: if_splits)
qed

lemma Clean_rooted:
  assumes "path \<noteq> []" and "hd path = Separator"
  shows "Clean path \<noteq> [] \<and> hd (Clean path) = Separator"
  using assms Clean_loop_rooted[of True "[Separator]" 1 "tl path"]
  by (simp add: Clean_def IsPathSeparator_def FromSlash_id Let_def)

lemma Clean_unrooted:
  assumes "path = [] \<or> hd path \<noteq> Separator"
  shows "Clean path \<noteq> [] \<and> hd (Clean path) \<noteq> Separator"
  using assms Clean_loop_unrooted[of False "[]" path 0]
  by (auto simp: Clean_def IsPathSeparator_def FromSlash_id Let_def Separator_def)

lemma Dir_dot: "Dir ''./'' = ''.''"
  by code_simp

lemma relative_unresolved:
  assumes "IsAbs wd" and "\<not> IsAbs file"
  shows "Abs (Inr wd) (Dir ''./'') = Inr (Clean (wd @ ''/.''))"
    and "Rel (Clean (wd @ ''/.'')) (Dir (FromSlash file)) = Inl filepath_RelError"
proof -
  from assms(1) have wd: "wd \<noteq> []" "hd wd = Separator"
    by (cases wd; simp add: IsAbs_def Separator_def)+
  show "Abs (Inr wd) (Dir ''./'') = Inr (Clean (wd @ ''/.''))"
    using wd by (simp add: Abs_def Dir_dot IsAbs_def Separator_def)
  let ?root = "Clean (wd @ ''/.'')"
  have root: "?root \<noteq> []" "hd ?root = Separator"
    using Clean_rooted[of "wd @ ''/.''"] wd by simp_all
  have base: "Clean ?root \<noteq> []" "hd (Clean ?root) = Separator"
    using Clean_rooted[OF root] by simp_all
  let ?d = "take (lastSeparator file (length file)) file"
  have "?d = [] \<or> hd ?d \<noteq> Separator"
    using assms(2) by (cases "file"; cases "lastSeparator file (length file)")
      (auto simp: IsAbs_def Separator_def)
  then have dir: "Dir file \<noteq> []" "hd (Dir file) \<noteq> Separator"
    using Clean_unrooted[of ?d] by (simp_all add: Dir_def)
  then have targ: "Clean (Dir file) \<noteq> []" "hd (Clean (Dir file)) \<noteq> Separator"
    using Clean_unrooted[of "Dir file"] by simp_all
  have ne: "Clean (Dir file) \<noteq> Clean ?root" using targ base by metis
  have nd: "Clean ?root \<noteq> ''.''" using base by (auto simp: Separator_def)
  show "Rel ?root (Dir (FromSlash file)) = Inl filepath_RelError"
    using ne nd base targ
    by (simp add: Rel_def FromSlash_id Let_def hd_conv_nth)
qed


lemma example_paths:
  "filter_paths [] ''/w'' [''/w/src/a.cpp'', ''/w/src/b.cpp'', ''/w/inc/a.h''] =
     [''Source Files/src'', ''Source Files'', ''Header Files/inc'', ''Header Files'']"
  by code_simp

lemma example_relative_unresolved:
  "filter (resolves ''/w'') [''src/a.cpp'', ''src/b.cpp'', ''inc/a.h''] = []"
  by code_simp

lemma example_root: "Abs (Inr ''/w'') (Dir ''./'') = Inr ''/w''"
  by code_simp

lemma example_space:
  "Parse UUIDSPACE_initial =
     Inr [0x10, 0x75, 0x8f, 0x2f, 0xf8, 0xbc, 0x4d, 0x6b,
          0xae, 0xaa, 0x81, 0x31, 0xbf, 0x78, 0xa8, 0x62]"
  by code_simp

text \<open>
  C3 (filter deduplication), as the claim states it, fails. The root that \<open>exportFilter\<close>
  computes is the working directory as an absolute path, and the directory of a relative
  file path cannot be made relative to it: in the working directory \<open>/w\<close> the three files
  of the claim are skipped and the filters grouping and the entries grouping are written
  without children.
\<close>

theorem filter_deduplication_counterexample:
  "exportFilter example_environment [''src/a.cpp'', ''src/b.cpp'', ''inc/a.h''] ''p.filters'' =
     Inr \<lparr>printed = [],
          created =
            [(''p.filters'',
              [StartElement
                 (xml_Name ''http://schemas.microsoft.com/developer/msbuild/2003'' ''Project'')
                 [xml_Attr (xml_Name [] ''ToolsVersion'') ''4.0''],
               StartElement (xml_Name [] ''ItemGroup'') [],
               EndElement (xml_Name [] ''ItemGroup''),
               StartElement (xml_Name [] ''ItemGroup'') [],
               EndElement (xml_Name [] ''ItemGroup''),
               EndElement
                 (xml_Name ''http://schemas.microsoft.com/developer/msbuild/2003'' ''Project'')])]\<rparr>"
proof -
  have "exportFilter_project space ''/w'' [''src/a.cpp'', ''src/b.cpp'', ''inc/a.h''] =
      Inr (Element (xml_Name ''http://schemas.microsoft.com/developer/msbuild/2003'' ''Project'')
             [xml_Attr (xml_Name [] ''ToolsVersion'') ''4.0'']
             [ElementPtr (Element (xml_Name [] ''ItemGroup'') [] []),
              ElementPtr (Element (xml_Name [] ''ItemGroup'') [] [])])" for space
    by (simp only: exportFilter_project_eq filter_paths_def example_relative_unresolved) simp
  then show ?thesis
    by (simp add: exportFilter_def example_environment_def example_space example_root
        EncodeToken_def Flush_def)
qed

text \<open>
  C3, amended. For the files \<open>/w/src/a.cpp\<close>, \<open>/w/src/b.cpp\<close> and \<open>/w/inc/a.h\<close> and the root
  \<open>/w\<close> the filters grouping holds exactly the declarations of \<open>Source Files/src\<close>, \<open>Source
  Files\<close>, \<open>Header Files/inc\<close> and \<open>Header Files\<close>, each once. In general the children of the
  filters grouping are the declarations of \<open>filter_paths [] root files\<close>: no path is declared
  twice, and the declared paths are the category paths of the resolved files and their
  ancestor prefixes. One walk from a path adds, for the path and each ancestor prefix in
  turn, a declaration exactly when no child of the grouping has that path as the value of
  its first attribute. The root of an absolute working directory \<open>wd\<close> is \<open>Clean (wd @
  ''/.'')\<close>, and no file path that is not absolute resolves against it.
\<close>

theorem filter_deduplication:
  "map_sum id filters_grouping
     (exportFilter_project space ''/w'' [''/w/src/a.cpp'', ''/w/src/b.cpp'', ''/w/inc/a.h'']) =
     Inr (map (filter_declaration space)
            [''Source Files/src'', ''Source Files'', ''Header Files/inc'', ''Header Files''])
   \<and> map_sum id filters_grouping (exportFilter_project space root files) =
       Inr (map (filter_declaration space) (filter_paths [] root files))
   \<and> distinct (filter_paths [] root files)
   \<and> set (filter_paths [] root files) =
       (\<Union>f \<in> set (filter (resolves root) files). set (ancestors (category_path root f)))
   \<and> exportFilter_path space (Element nm attrs (map (filter_declaration space) ps)) path =
       Inr (Element nm attrs (map (filter_declaration space) (add_missing ps (ancestors path))))
   \<and> filterExists_range (map (filter_declaration space) ps) path = Inr (path \<in> set ps)
   \<and> add_missing ps (q # qs) = add_missing (if q \<in> set ps then ps else ps @ [q]) qs
   \<and> add_missing ps [] = ps
   \<and> (IsAbs wd \<and> \<not> IsAbs relfile \<longrightarrow>
        Abs (Inr wd) (Dir ''./'') = Inr (Clean (wd @ ''/.'')) \<and>
        Rel (Clean (wd @ ''/.'')) (Dir (FromSlash relfile)) = Inl filepath_RelError)"
  using exportFilter_path_eq[of "Element nm attrs (map (filter_declaration space) ps)" space ps path]
    relative_unresolved[of wd relfile]
  by (simp add: filters_grouping_project example_paths filter_paths_distinct filter_paths_set
      filterExists_declarations add_missing_simps)

lemma example_absolute: "IsAbs ''/w''" "\<not> IsAbs ''src/a.cpp''" "Clean ''/w/.'' = ''/w''"
  by code_simp+

text \<open>
  In the working directory \<open>/w\<close> the root is \<open>/w\<close>, and \<open>src/a.cpp\<close> does not resolve.
\<close>

theorem filter_deduplication_witness:
  "IsAbs ''/w'' \<and> \<not> IsAbs ''src/a.cpp''
   \<and> Abs (Inr ''/w'') (Dir ''./'') = Inr ''/w''
   \<and> Rel ''/w'' (Dir (FromSlash ''src/a.cpp'')) = Inl filepath_RelError"
  using filter_deduplication[where wd = "''/w''" and relfile = "''src/a.cpp''"] example_absolute
  by simp

lemma example_entry:
  "resolves ''/w'' ''/w/doc/readme.txt''"
  "filter_entry ''/w'' ''/w/doc/readme.txt'' =
     ElementPtr (Element (xml_Name [] ''ClCompile'')
       [xml_Attr (xml_Name [] ''Include'') ''/w/doc/readme.txt'']
       [ElementPtr (Element (xml_Name [] ''Filter'') [] [CharData ''Source Files/doc''])])"
  by code_simp+

text \<open>
  C9 (one entry per resolved file, whatever its extension). The children of the entries
  grouping are the entries of the files that resolve, one each and in input order. The
  entry of a file has the tag \<open>ClInclude\<close> and a category path under \<open>Header Files\<close> when the
  extension is \<open>.h\<close>, and the tag \<open>ClCompile\<close> and a category path under \<open>Source Files\<close> for
  every other extension: the text file \<open>/w/doc/readme.txt\<close> has the entry of a source.
\<close>

theorem one_entry_per_resolved_file:
  "map_sum id entries_grouping (exportFilter_project space root files) =
     Inr (map (filter_entry root) (filter (resolves root) files))
   \<and> filter_entry root file =
       ElementPtr (Element (xml_Name [] (if Ext file = ''.h'' then ''ClInclude'' else ''ClCompile''))
         [xml_Attr (xml_Name [] ''Include'') file]
         [ElementPtr (Element (xml_Name [] ''Filter'') []
            [CharData (Join [if Ext file = ''.h'' then ''Header Files'' else ''Source Files'',
                             relative_dir root file])])])
   \<and> map_sum id entries_grouping (exportFilter_project space ''/w'' [''/w/doc/readme.txt'']) =
       Inr [ElementPtr (Element (xml_Name [] ''ClCompile'')
              [xml_Attr (xml_Name [] ''Include'') ''/w/doc/readme.txt'']
              [ElementPtr (Element (xml_Name [] ''Filter'') [] [CharData ''Source Files/doc''])])]"
  by (simp add: entries_grouping_project example_entry)
     (simp add: filter_entry_def tag_of_def folder_of_def category_path_def)

text \<open>
  C7 (skip on an unresolvable path). When the directory of a file cannot be made relative
  to the root that \<open>exportFilter\<close> computes, the loop body leaves both groupings as they are
  and returns no panic, and the whole of \<open>exportFilter\<close> (what it prints and what it writes)
  is what it is for the list without that file.
\<close>

theorem unresolvable_file_is_skipped:
  assumes "Abs (Getwd env) (Dir ''./'') = Inr root"
    and "Rel root (Dir (FromSlash file)) = Inl err"
  shows "exportFilter_file space root elms file = Inr elms
    \<and> exportFilter env (before @ file # after) outpath = exportFilter env (before @ after) outpath"
proof -
  have "exportFilter_file space root elms file = Inr elms"
    using assms(2) by (cases elms) (simp add: exportFilter_file_def)
  moreover have "exportFilter_project s root (before @ file # after) =
      exportFilter_project s root (before @ after)" for s
    using exportFilter_range_skip[OF assms(2)] by (simp add: exportFilter_project_def)
  ultimately show ?thesis
    using assms(1) by (simp add: exportFilter_def split: sum.splits)
qed

lemma example_unresolvable: "Rel ''/w'' (Dir (FromSlash ''src/a.cpp'')) = Inl filepath_RelError"
  by code_simp

theorem unresolvable_file_is_skipped_witness:
  "Abs (Getwd example_environment) (Dir ''./'') = Inr ''/w''
   \<and> Rel ''/w'' (Dir (FromSlash ''src/a.cpp'')) = Inl filepath_RelError
   \<and> exportFilter example_environment ([''/w/x.cpp''] @ ''src/a.cpp'' # [''/w/inc/y.h'']) ''p.filters'' =
       exportFilter example_environment ([''/w/x.cpp''] @ [''/w/inc/y.h'']) ''p.filters''"
proof -
  have a: "Abs (Getwd example_environment) (Dir ''./'') = Inr ''/w''"
    by (simp add: example_environment_def example_root)
  show ?thesis
    using a example_unresolvable
      unresolvable_file_is_skipped[OF a example_unresolvable, of _ _ "[''/w/x.cpp'']"
        "[''/w/inc/y.h'']" "''p.filters''"]
    by simp
qed

text \<open>
  C10 (the children of the filters grouping). When every child of the filters grouping is
  an element whose first attribute is \<open>Include\<close>, the existence check returns without a
  panic and says whether the path is the value of the first attribute of a child, and the
  walk from a path and the loop over any files return without a panic a grouping of which
  the same holds. The grouping is empty at the start, so this holds throughout the loop
  for every list of files, and \<open>exportFilter\<close> never panics.
\<close>

theorem filters_children_are_path_declarations:
  assumes "list_all path_first (children elmFilters)"
  shows "filterExists_range (children elmFilters) path =
       Inr (path \<in> set (map path_of (children elmFilters)))
    \<and> (\<exists>e. exportFilter_path space elmFilters path = Inr e \<and> list_all path_first (children e))
    \<and> (\<exists>F E. exportFilter_range space root (elmFilters, elmEntries) files = Inr (F, E)
          \<and> list_all path_first (children F))
    \<and> (\<exists>F E. exportFilter_range space root
                 (Element (xml_Name [] ''ItemGroup'') [] [], Element (xml_Name [] ''ItemGroup'') [] [])
                 files = Inr (F, E)
          \<and> list_all path_first (children F))
    \<and> (\<exists>eff. exportFilter env files outpath = Inr eff)"
proof -
  have "\<exists>eff. exportFilter env files outpath = Inr eff"
    by (simp add: exportFilter_def exportFilter_project_eq Let_def split: sum.splits)
  moreover have "list_all path_first (children (Element (xml_Name [] ''ItemGroup'') [] []))"
    by simp
  ultimately show ?thesis
    using filterExists_safe[OF assms] exportFilter_path_inv[OF assms]
      exportFilter_range_inv[OF assms]
      exportFilter_range_inv[of "Element (xml_Name [] ''ItemGroup'') [] []"]
    by blast
qed

theorem filters_children_are_path_declarations_witness:
  "list_all path_first
     (children (Element (xml_Name [] ''ItemGroup'') [] [filter_declaration [] ''Source Files'']))
   \<and> filterExists_range
       (children (Element (xml_Name [] ''ItemGroup'') [] [filter_declaration [] ''Source Files'']))
       ''Source Files'' = Inr True
   \<and> (\<exists>e. exportFilter_path []
             (Element (xml_Name [] ''ItemGroup'') [] [filter_declaration [] ''Source Files''])
             ''Source Files/src'' = Inr e
          \<and> list_all path_first (children e))"
proof -
  have a: "list_all path_first
     (children (Element (xml_Name [] ''ItemGroup'') [] [filter_declaration [] ''Source Files'']))"
    by (simp add: path_first_declaration)
  have b: "path_of (filter_declaration [] ''Source Files'') = ''Source Files''"
    by (simp add: path_of_def filter_declaration_def)
  show ?thesis
    using a filters_children_are_path_declarations[OF a, of "''Source Files''" "[]"]
      filters_children_are_path_declarations[OF a, of _ "[]" "''Source Files/src''"]
    by (simp add: b)
qed

section \<open>Properties of the stable identifier\<close>










section \<open>Properties of encoding and decoding\<close>

lemma marshal_ok:
  "writer_error e = None \<Longrightarrow> MarshalXML t e = (None, e\<lparr>written := written e @ tokens_of t\<rparr>)"
  "writer_error e = None \<Longrightarrow>
     MarshalXML_range cs e = (None, e\<lparr>written := written e @ tokens_of_children cs\<rparr>)"
  "writer_error e = None \<Longrightarrow> Encode t e = (None, e\<lparr>written := written e @ tokens_of t\<rparr>)"
  by (induction t e and cs e and t e rule: MarshalXML_MarshalXML_range_Encode.induct)
     (simp_all add: EncodeToken_def Flush_def)

lemma encode_tokens: "encode t = tokens_of t"
  by (simp add: encode_def marshal_ok Flush_def)

lemma strip_no_namespace:
  "no_namespace e \<Longrightarrow> strip e = e"
  "no_namespace_children cs \<Longrightarrow> strip_children cs = cs"
  by (induction e and cs rule: strip_strip_children.induct) (simp_all add: xml_Name.expand)

lemma loop_end:
  "UnmarshalXML_loop (Suc (Suc k)) out \<lparr>input = EndElement nm # rest, stk = stkStart nm # stkEOF # s\<rparr> =
     Some (None, out, \<lparr>input = rest, stk = stkEOF # s\<rparr>)"
  by (simp add: Decoder_Token_def)

lemma decode_tokens:
  "length (tokens_of_children cs) + 2 \<le> n \<Longrightarrow> e = Element nm attrs cs \<Longrightarrow>
     DecodeElement n \<lparr>input = tokens_of_children cs @ EndElement nm # rest, stk = stkStart nm # s\<rparr>
       nm attrs =
     Some (None, strip e, \<lparr>input = rest, stk = s\<rparr>)"
  "length (tokens_of_children cs) + 2 \<le> n \<Longrightarrow>
     UnmarshalXML_loop n out
       \<lparr>input = tokens_of_children cs @ EndElement nm # rest, stk = stkStart nm # stkEOF # s\<rparr> =
     Some (None, Element (name out) (attributes out) (children out @ strip_children cs),
           \<lparr>input = rest, stk = stkEOF # s\<rparr>)"
proof (induction e and cs arbitrary: n nm attrs cs rest s and n out nm rest s
    rule: tokens_of_tokens_of_children.induct)
  case (1 nm' attrs' cs')
  then have eq: "nm' = nm" "attrs' = attrs" "cs' = cs" by simp_all
  from "1.IH"[of n "Element (xml_Name [] (Local nm)) attrs []" nm rest s] "1.prems"(1) eq
  show ?case
    by (simp add: pushEOF_def popEOF_def Element_zero_def)
next
  case 2
  then obtain k where "n = Suc (Suc k)"
    by (metis add_2_eq_Suc le_Suc_ex list.size(3) tokens_of_children.simps(1) add.left_neutral)
  then show ?case by (cases out) (simp add: Decoder_Token_def)
next
  case (3 c rest')
  obtain cn cattrs ccs where c: "c = Element cn cattrs ccs" by (cases c)
  from "3.prems" obtain m where n: "n = Suc m" by (cases n) auto
  have len: "length (tokens_of_children ccs) + 2 \<le> m"
    "length (tokens_of_children rest') + 2 \<le> m"
    using "3.prems" n c by simp_all
  have a: "DecodeElement m
      \<lparr>input = tokens_of_children ccs @ EndElement cn #
         (tokens_of_children rest' @ EndElement nm # rest),
       stk = stkStart cn # stkStart nm # stkEOF # s\<rparr> cn cattrs =
      Some (None, strip c,
        \<lparr>input = tokens_of_children rest' @ EndElement nm # rest,
         stk = stkStart nm # stkEOF # s\<rparr>)"
    by (rule "3.IH"(1)[OF len(1) c])
  have b: "UnmarshalXML_loop m
      (Element (name out) (attributes out) (children out @ [ElementPtr (strip c)]))
      \<lparr>input = tokens_of_children rest' @ EndElement nm # rest, stk = stkStart nm # stkEOF # s\<rparr> =
      Some (None,
        Element (name out) (attributes out)
          ((children out @ [ElementPtr (strip c)]) @ strip_children rest'),
        \<lparr>input = rest, stk = stkEOF # s\<rparr>)"
    using "3.IH"(2)[OF len(2),
        of "Element (name out) (attributes out) (children out @ [ElementPtr (strip c)])" nm rest s]
    by simp
  show ?case
    unfolding n using a b c
    by (simp add: Decoder_Token_def del: DecodeElement.simps)
next
  case (4 v rest')
  from "4.prems" obtain m where n: "n = Suc m" by (cases n) auto
  have len: "length (tokens_of_children rest') + 2 \<le> m" using "4.prems" n by simp
  show ?case
    unfolding n
    using "4.IH"[OF len, of "Element (name out) (attributes out) (children out @ [CharData v])" nm rest s]
    by (simp add: Decoder_Token_def)
next
  case (5 v rest')
  from "5.prems" obtain m where n: "n = Suc m" by (cases n) auto
  have len: "length (tokens_of_children rest') + 2 \<le> m" using "5.prems" n by simp
  show ?case
    unfolding n
    using "5.IH"[OF len, of "Element (name out) (attributes out) (children out @ [Comment v])" nm rest s]
    by (simp add: Decoder_Token_def)
qed


lemma no_namespace_children_append:
  "no_namespace_children (xs @ ys) = (no_namespace_children xs \<and> no_namespace_children ys)"
proof (induction xs)
  case Nil
  show ?case by simp
next
  case (Cons a xs)
  then show ?case by (cases a) simp_all
qed

lemma public_operations_no_namespace:
  "no_namespace Element_zero"
  "no_namespace e \<Longrightarrow> no_namespace (AddAttribute e nm v)"
  "no_namespace e \<Longrightarrow> no_namespace (AddCharData e v)"
  "no_namespace e \<Longrightarrow> no_namespace (AddChild e nm)"
proof -
  show "no_namespace Element_zero" by (simp add: Element_zero_def)
  show "no_namespace e \<Longrightarrow> no_namespace (AddAttribute e nm v)"
    by (cases e) (simp add: AddAttribute_def)
  show "no_namespace e \<Longrightarrow> no_namespace (AddCharData e v)"
    by (cases e) (simp add: AddCharData_def no_namespace_children_append)
  show "no_namespace e \<Longrightarrow> no_namespace (AddChild e nm)"
    by (cases e) (simp add: AddChild_def no_namespace_children_append)
qed

lemma decode_encode:
  assumes "length (encode tree) < n"
  shows "Decode n \<lparr>input = encode tree, stk = []\<rparr> Element_zero =
      Some (None, strip tree, \<lparr>input = [], stk = []\<rparr>)"
proof -
  obtain nm attrs cs where t: "tree = Element nm attrs cs" by (cases tree)
  from assms obtain m where n: "n = Suc m" by (cases n) auto
  have len: "length (tokens_of_children cs) + 2 \<le> m"
    using assms n t by (simp add: encode_tokens)
  have "UnmarshalXML_loop m (Element (xml_Name [] (Local nm)) attrs [])
      \<lparr>input = tokens_of_children cs @ EndElement nm # [], stk = stkStart nm # stkEOF # []\<rparr> =
      Some (None, Element (xml_Name [] (Local nm)) attrs (strip_children cs),
        \<lparr>input = [], stk = stkEOF # []\<rparr>)"
    using decode_tokens(2)[OF len, of "Element (xml_Name [] (Local nm)) attrs []" nm "[]" "[]"]
    by simp
  then show ?thesis
    unfolding n t
    by (simp add: encode_tokens Decoder_Token_def pushEOF_def popEOF_def Element_zero_def)
qed

text \<open>
  C2 (round-trip fidelity). For a tree whose element names have no namespace, and in
  particular for one built with the public operations, \<open>Decode\<close> reads the tokens that
  \<open>Encode\<close> wrote to the end without an error, whenever it may read more tokens than there
  are, and yields the tree itself; encoding the decoded tree writes the same tokens again.
  The public operations keep element names free of namespaces.
\<close>

theorem round_trip:
  assumes "no_namespace tree" and "length (encode tree) < n"
  shows "Decode n \<lparr>input = encode tree, stk = []\<rparr> Element_zero =
       Some (None, tree, \<lparr>input = [], stk = []\<rparr>)
    \<and> map_option (\<lambda>(err, tree', d). (err, encode tree'))
         (Decode n \<lparr>input = encode tree, stk = []\<rparr> Element_zero) =
       Some (None, encode tree)
    \<and> no_namespace (AddAttribute tree nm v) \<and> no_namespace (AddCharData tree v)
    \<and> no_namespace (AddChild tree nm) \<and> no_namespace Element_zero"
  using decode_encode[OF assms(2)] strip_no_namespace(1)[OF assms(1)]
    public_operations_no_namespace assms(1)
  by simp

text \<open>
  The grouping that \<open>overrideSources\<close> makes of an empty grouping for the file \<open>a.cpp\<close>:
  five tokens, decoded with a bound of six.
\<close>

lemma round_trip_example:
  "overrideSources
     (Element (xml_Name [] ''ItemGroup'') [xml_Attr (xml_Name [] ''Label'') ''Sources''] [])
     [''a.cpp''] =
   Element (xml_Name [] ''ItemGroup'') [] (entry ''ClCompile'' ''a.cpp'')"
  by (simp add: overrideSources_def overrideSources_loop_eq Ext_examples)

theorem round_trip_witness:
  "no_namespace
     (overrideSources
        (Element (xml_Name [] ''ItemGroup'') [xml_Attr (xml_Name [] ''Label'') ''Sources''] [])
        [''a.cpp''])
   \<and> length (encode
       (overrideSources
          (Element (xml_Name [] ''ItemGroup'') [xml_Attr (xml_Name [] ''Label'') ''Sources''] [])
          [''a.cpp''])) < 6
   \<and> map_option (\<lambda>(err, tree', d). (err, encode tree'))
       (Decode 6
          \<lparr>input = encode
             (overrideSources
                (Element (xml_Name [] ''ItemGroup'') [xml_Attr (xml_Name [] ''Label'') ''Sources''] [])
                [''a.cpp'']),
           stk = []\<rparr> Element_zero) =
     Some (None,
       [StartElement (xml_Name [] ''ItemGroup'') [],
        StartElement (xml_Name [] ''ClCompile'') [xml_Attr (xml_Name [] ''Include'') ''a.cpp''],
        EndElement (xml_Name [] ''ClCompile''),
        CharDataTok [CHR 0x0A],
        EndElement (xml_Name [] ''ItemGroup'')])"
proof -
  let ?t = "overrideSources
        (Element (xml_Name [] ''ItemGroup'') [xml_Attr (xml_Name [] ''Label'') ''Sources''] [])
        [''a.cpp'']"
  have a: "no_namespace ?t" by (simp add: round_trip_example)
  have b: "length (encode ?t) < 6" by (simp add: round_trip_example encode_tokens)
  show ?thesis
    using a b round_trip[OF a b] by (simp add: round_trip_example encode_tokens)
qed

section \<open>Properties of error handling\<close>







end
